theory Spec2Isabelle
  imports Complex_Main "HOL-Library.Multiset"
begin

section \<open>Market scan and cross-strategy ranking (scan_market.py)\<close>

text \<open>
  Conventions of the embedding.
  \<^item> Python floats are modelled as \<open>real\<close>; Python ints as \<open>int\<close>. The mean volume of a
    price file, which pandas returns as NaN for an empty or all-missing column, is a
    \<open>pyfloat\<close>: a real or NaN.
  \<^item> Python \<open>str\<close> is a \<open>string\<close> holding the UTF-8 bytes of the text. A substring test on
    UTF-8 bytes agrees with the substring test on code points.
  \<^item> A pandas DataFrame is the list of its rows; an insertion-ordered \<open>dict\<close> is an
    association list with distinct keys.
  \<^item> The external collaborators (file system, CSV reader, institutional loader, backtest
    engine) are the fields of an environment record; a call that raises returns \<open>None\<close>.
  \<^item> \<open>DataFrame.sort_values\<close> is called with the default \<open>kind\<close>, whose order among equal
    keys pandas does not fix. The sort is therefore a parameter \<open>argsort\<close>, constrained in the
    theorems by \<open>argsort_ok\<close>: it returns a permutation of the positions that lists the keys
    in descending order.
\<close>

subsection \<open>Strings\<close>

fun startswith :: "string \<Rightarrow> string \<Rightarrow> bool" where
  "startswith s [] = True"
| "startswith [] (p # ps) = False"
| "startswith (c # cs) (p # ps) = (c = p \<and> startswith cs ps)"

text \<open>\<open>str_in sub s\<close> is Python's \<open>sub in s\<close>.\<close>

fun str_in :: "string \<Rightarrow> string \<Rightarrow> bool" where
  "str_in sub [] = (sub = [])"
| "str_in sub (c # cs) = (startswith (c # cs) sub \<or> str_in sub cs)"

text \<open>\<open>os.path.basename\<close>: the part after the last slash.\<close>

definition basename :: "string \<Rightarrow> string" where
  "basename p = rev (takeWhile (\<lambda>c. c \<noteq> CHR ''/'') (rev p))"

text \<open>\<open>s.replace('.csv', '')\<close>: every occurrence removed, left to right.\<close>

fun replace_csv :: "string \<Rightarrow> string" where
  "replace_csv (a # b # c # d # rest) =
     (if [a, b, c, d] = ''.csv'' then replace_csv rest
      else a # replace_csv (b # c # d # rest))"
| "replace_csv s = s"

text \<open>\<open>os.path.basename(csv_path).split('_')[0]\<close>\<close>

definition ticker_of :: "string \<Rightarrow> string" where
  "ticker_of csv_path = takeWhile (\<lambda>c. c \<noteq> CHR ''_'') (basename csv_path)"

text \<open>\<open>os.path.basename(csv_path).replace('.csv', '').split('_', 1)[-1]\<close>\<close>

definition name_of :: "string \<Rightarrow> string" where
  "name_of csv_path =
     (let s = replace_csv (basename csv_path)
      in case dropWhile (\<lambda>c. c \<noteq> CHR ''_'') s of [] \<Rightarrow> s | _ # r \<Rightarrow> r)"

text \<open>\<open>sep.join(xs)\<close>\<close>

fun join :: "string \<Rightarrow> string list \<Rightarrow> string" where
  "join sep [] = []"
| "join sep [x] = x"
| "join sep (x # y # ys) = x @ sep @ join sep (y # ys)"

subsection \<open>Dictionaries and DataFrames\<close>

text \<open>\<open>d[k] = v\<close> on an insertion-ordered dict: an existing key keeps its position.\<close>

fun dict_set :: "('k \<times> 'v) list \<Rightarrow> 'k \<Rightarrow> 'v \<Rightarrow> ('k \<times> 'v) list" where
  "dict_set [] k v = [(k, v)]"
| "dict_set ((k', v') # kvs) k v =
     (if k' = k then (k', v) # kvs else (k', v') # dict_set kvs k v)"

text \<open>The rows stored under a key (no rows when the key is absent).\<close>

definition rows_of :: "('k \<times> 'v list) list \<Rightarrow> 'k \<Rightarrow> 'v list" where
  "rows_of d k = (case map_of d k of None \<Rightarrow> [] | Some rs \<Rightarrow> rs)"

text \<open>
  \<open>df.head(n)\<close>: the first \<open>n\<close> rows; for a negative \<open>n\<close>, all rows but the last \<open>-n\<close>.
\<close>

definition df_head :: "int \<Rightarrow> 'a list \<Rightarrow> 'a list" where
  "df_head n xs = (if 0 \<le> n then take (nat n) xs else take (length xs - nat (- n)) xs)"

text \<open>
  \<open>df.sort_values(col, ascending=False)\<close>: pandas computes the positions with an argsort of
  the key column and takes the rows in that order.
\<close>

definition sort_values_desc :: "(real list \<Rightarrow> nat list) \<Rightarrow> ('a \<Rightarrow> real) \<Rightarrow> 'a list \<Rightarrow> 'a list" where
  "sort_values_desc argsort key xs = map (\<lambda>i. xs ! i) (argsort (map key xs))"

text \<open>What every sort guarantees: a permutation of the positions, keys descending.\<close>

definition argsort_ok :: "(real list \<Rightarrow> nat list) \<Rightarrow> bool" where
  "argsort_ok argsort =
     (\<forall>ks. mset (argsort ks) = mset [0..<length ks]
         \<and> sorted_wrt (\<lambda>x y. x \<ge> y) (map (\<lambda>i. ks ! i) (argsort ks)))"

text \<open>One admissible sort, used to run the model: the stable descending argsort.\<close>

definition stable_argsort :: "real list \<Rightarrow> nat list" where
  "stable_argsort ks = map snd (sort_key (\<lambda>p. - fst p) (zip ks [0..<length ks]))"

subsection \<open>Data model\<close>

datatype strategy =
    MACrossStrategy int int
  | RSIStrategy int int
  | MACDStrategy
  | BollingerStrategy
  | MomentumBreakoutStrategy int
  | VolumeBreakoutStrategy real
  | TurtleStrategy int int
  | InstitutionalFollowStrategy string int int

text \<open>The \<open>metrics\<close> dict of a backtest result.\<close>

record metrics =
  m_total_return :: real
  m_sharpe_ratio :: real
  m_max_drawdown :: real
  m_win_rate :: real
  m_trade_count :: int

text \<open>A row of a per-strategy result table (StrategyResult).\<close>

record row =
  ticker :: string
  name :: string
  total_return :: real
  sharpe_ratio :: real
  max_drawdown :: real
  win_rate :: real
  trade_count :: int

text \<open>The per-ticker accumulator \<open>stock_stats[ticker]\<close>.\<close>

record stats =
  s_name :: string
  strategies :: "string list"
  sharpe_list :: "real list"
  return_list :: "real list"
  s_best_sharpe :: real
  s_best_strategy :: string

text \<open>A row of the composite ranking (CompositeRankingEntry).\<close>

record entry =
  e_ticker :: string
  e_name :: string
  score :: real
  strategy_count :: nat
  avg_sharpe :: real
  avg_return :: real
  best_strategy :: string
  best_sharpe :: real
  e_strategies :: string

datatype exn = ZeroDivisionError

text \<open>
  A float that may be NaN, and the comparison \<open>x < m\<close> with a number \<open>m\<close>: every comparison
  with NaN is false.
\<close>

datatype pyfloat = NaN | Num real

definition float_lt :: "pyfloat \<Rightarrow> real \<Rightarrow> bool" where
  "float_lt x m = (case x of NaN \<Rightarrow> False | Num v \<Rightarrow> v < m)"

text \<open>
  The collaborators. \<open>read_csv\<close>, \<open>volume_mean\<close> (\<open>df['volume'].mean()\<close>) and \<open>engine_run\<close>
  (\<open>engine.run(run_df, strategy)['metrics']\<close>) return \<open>None\<close> when they raise;
  \<open>load_stock_with_institutional\<close> returns \<open>None\<close> when it raises and \<open>Some None\<close> when it returns
  Python's \<open>None\<close>. \<open>institutional_data\<close> says whether the global \<open>INSTITUTIONAL_DATA\<close> was loaded.
\<close>

record 'df env =
  glob_files :: "string list"
  institutional_data :: bool
  read_csv :: "string \<Rightarrow> 'df option"
  volume_mean :: "'df \<Rightarrow> pyfloat option"
  load_stock_with_institutional :: "string \<Rightarrow> 'df option option"
  df_empty :: "'df \<Rightarrow> bool"
  engine_run :: "'df \<Rightarrow> strategy \<Rightarrow> metrics option"

subsection \<open>get_all_strategies\<close>

definition name_bollinger :: string where
  "name_bollinger = [CHR 0xE5, CHR 0xB8, CHR 0x83, CHR 0xE6, CHR 0x9E, CHR 0x97,
                     CHR 0xE9, CHR 0x80, CHR 0x9A, CHR 0xE9, CHR 0x81, CHR 0x93]"

definition name_momentum :: string where
  "name_momentum = [CHR 0xE5, CHR 0x8B, CHR 0x95, CHR 0xE9, CHR 0x87, CHR 0x8F,
                    CHR 0xE7, CHR 0xAA, CHR 0x81, CHR 0xE7, CHR 0xA0, CHR 0xB4]"

definition name_volume :: string where
  "name_volume = [CHR 0xE9, CHR 0x87, CHR 0x8F, CHR 0xE5, CHR 0x83, CHR 0xB9,
                  CHR 0xE7, CHR 0xAA, CHR 0x81, CHR 0xE7, CHR 0xA0, CHR 0xB4]"

definition name_turtle :: string where
  "name_turtle = [CHR 0xE6, CHR 0xB5, CHR 0xB7, CHR 0xE9, CHR 0xBE, CHR 0x9C,
                  CHR 0xE7, CHR 0xAD, CHR 0x96, CHR 0xE7, CHR 0x95, CHR 0xA5]"

text \<open>The two-character markers "consecutive buying" and "consecutive selling".\<close>

definition lian_mai :: string where
  "lian_mai = [CHR 0xE9, CHR 0x80, CHR 0xA3, CHR 0xE8, CHR 0xB2, CHR 0xB7]"

definition lian_mai_sell :: string where
  "lian_mai_sell = [CHR 0xE9, CHR 0x80, CHR 0xA3, CHR 0xE8, CHR 0xB3, CHR 0xA3]"

definition name_foreign :: string where
  "name_foreign = [CHR 0xE5, CHR 0xA4, CHR 0x96, CHR 0xE8, CHR 0xB3, CHR 0x87] @ lian_mai"

definition name_trust :: string where
  "name_trust = [CHR 0xE6, CHR 0x8A, CHR 0x95, CHR 0xE4, CHR 0xBF, CHR 0xA1] @ lian_mai"

definition get_all_strategies :: "bool \<Rightarrow> bool \<Rightarrow> (string \<times> strategy) list" where
  "get_all_strategies include_institutional inst_loaded =
     [(''MA5x20'', MACrossStrategy 5 20),
      (''MA5x60'', MACrossStrategy 5 60),
      (''RSI'', RSIStrategy 30 70),
      (''MACD'', MACDStrategy),
      (name_bollinger, BollingerStrategy),
      (name_momentum, MomentumBreakoutStrategy 20),
      (name_volume, VolumeBreakoutStrategy 2),
      (name_turtle, TurtleStrategy 20 10)]
     @ (if include_institutional \<and> inst_loaded
        then [(name_foreign, InstitutionalFollowStrategy ''foreign'' 3 100),
              (name_trust, InstitutionalFollowStrategy ''trust'' 3 10)]
        else [])"

subsection \<open>compute_overall_ranking\<close>

text \<open>The accumulator created at a ticker's first appearance.\<close>

definition new_stats :: "row \<Rightarrow> stats" where
  "new_stats r = \<lparr>s_name = name r, strategies = [], sharpe_list = [], return_list = [],
                  s_best_sharpe = 0, s_best_strategy = []\<rparr>"

text \<open>The three appends and the update of the running best.\<close>

definition upd_stats :: "string \<Rightarrow> row \<Rightarrow> stats \<Rightarrow> stats" where
  "upd_stats strategy_name r s =
     (let s1 = s\<lparr>strategies := strategies s @ [strategy_name],
                 sharpe_list := sharpe_list s @ [sharpe_ratio r],
                 return_list := return_list s @ [total_return r]\<rparr>
      in if sharpe_ratio r > s_best_sharpe s1
         then s1\<lparr>s_best_sharpe := sharpe_ratio r, s_best_strategy := strategy_name\<rparr>
         else s1)"

text \<open>The body of the loop over the rows of one leaderboard.\<close>

definition add_row :: "string \<Rightarrow> (string \<times> stats) list \<Rightarrow> row \<Rightarrow> (string \<times> stats) list" where
  "add_row strategy_name stock_stats r =
     (case map_of stock_stats (ticker r) of
        None \<Rightarrow> dict_set stock_stats (ticker r) (upd_stats strategy_name r (new_stats r))
      | Some s \<Rightarrow> dict_set stock_stats (ticker r) (upd_stats strategy_name r s))"

text \<open>The loop over \<open>results.items()\<close>; an empty table is skipped.\<close>

definition add_table :: "(string \<times> stats) list \<Rightarrow> string \<times> row list \<Rightarrow> (string \<times> stats) list" where
  "add_table stock_stats item =
     (case item of (strategy_name, df) \<Rightarrow>
        if df = [] then stock_stats else foldl (add_row strategy_name) stock_stats df)"

definition collect_stats :: "(string \<times> row list) list \<Rightarrow> (string \<times> stats) list" where
  "collect_stats results = foldl add_table [] results"

text \<open>
  One element of \<open>ranking_data\<close>. The two means divide by \<open>strategy_count\<close>; on empty lists
  Python evaluates \<open>0 / 0\<close> and raises.
\<close>

definition score_entry :: "string \<times> stats \<Rightarrow> exn + entry" where
  "score_entry item =
     (case item of (tk, st) \<Rightarrow>
        let strategy_count = length (strategies st)
        in if strategy_count = 0 then Inl ZeroDivisionError
           else let avg_sharpe = sum_list (sharpe_list st) / real strategy_count;
                    avg_return = sum_list (return_list st) / real strategy_count;
                    score = real strategy_count * avg_sharpe
                in Inr \<lparr>e_ticker = tk, e_name = s_name st, score = score,
                        strategy_count = strategy_count, avg_sharpe = avg_sharpe,
                        avg_return = avg_return, best_strategy = s_best_strategy st,
                        best_sharpe = s_best_sharpe st,
                        e_strategies = join '', '' (take 3 (strategies st))
                           @ (if strategy_count > 3 then ''...'' else [])\<rparr>)"

fun ranking_data :: "(string \<times> stats) list \<Rightarrow> exn + entry list" where
  "ranking_data [] = Inr []"
| "ranking_data (item # items) =
     (case score_entry item of
        Inl x \<Rightarrow> Inl x
      | Inr en \<Rightarrow> (case ranking_data items of Inl x \<Rightarrow> Inl x | Inr ens \<Rightarrow> Inr (en # ens)))"

definition compute_overall_ranking ::
  "(real list \<Rightarrow> nat list) \<Rightarrow> (string \<times> row list) list \<Rightarrow> int \<Rightarrow> exn + entry list" where
  "compute_overall_ranking argsort results top_n =
     (case ranking_data (collect_stats results) of
        Inl x \<Rightarrow> Inl x
      | Inr ranking_df \<Rightarrow>
          Inr (if ranking_df \<noteq> [] then df_head top_n (sort_values_desc argsort score ranking_df)
               else ranking_df))"

subsection \<open>market_scan_all_strategies\<close>

text \<open>
  The scan state: the \<open>results\<close> dict, and a log of the calls of \<open>engine.run\<close> (the path being
  scanned, the strategy name, the series passed).
\<close>

type_synonym 'df scan_state = "(string \<times> row list) list \<times> (string \<times> string \<times> 'df) list"

definition is_institutional :: "string \<Rightarrow> bool" where
  "is_institutional strategy_name =
     (str_in lian_mai strategy_name \<or> str_in lian_mai_sell strategy_name)"

text \<open>The series a strategy runs on; \<open>None\<close> is the \<open>continue\<close> of the institutional branch.\<close>

definition select_run_df :: "'df env \<Rightarrow> string \<Rightarrow> 'df \<Rightarrow> 'df option \<Rightarrow> 'df option" where
  "select_run_df e strategy_name df df_with_inst =
     (if is_institutional strategy_name
      then (case df_with_inst of
              None \<Rightarrow> None
            | Some dwi \<Rightarrow> if df_empty e dwi then None else Some dwi)
      else Some df)"

definition make_row :: "string \<Rightarrow> string \<Rightarrow> metrics \<Rightarrow> row" where
  "make_row tk nm m =
     \<lparr>ticker = tk, name = nm, total_return = m_total_return m,
      sharpe_ratio = m_sharpe_ratio m, max_drawdown = m_max_drawdown m,
      win_rate = m_win_rate m, trade_count = m_trade_count m\<rparr>"

text \<open>The body of the inner \<open>try\<close>, with its \<open>except: continue\<close>.\<close>

definition try_strategy ::
  "'df env \<Rightarrow> string \<Rightarrow> string \<Rightarrow> string \<Rightarrow> 'df \<Rightarrow> 'df option
     \<Rightarrow> 'df scan_state \<Rightarrow> string \<times> strategy \<Rightarrow> 'df scan_state" where
  "try_strategy e csv_path tk nm df df_with_inst st item =
     (case item of (strategy_name, strategy) \<Rightarrow>
        (case select_run_df e strategy_name df df_with_inst of
           None \<Rightarrow> st
         | Some run_df \<Rightarrow>
             let calls = snd st @ [(csv_path, strategy_name, run_df)]
             in (case engine_run e run_df strategy of
                   None \<Rightarrow> (fst st, calls)
                 | Some m \<Rightarrow>
                     if m_trade_count m \<ge> 3
                     then (case map_of (fst st) strategy_name of
                             None \<Rightarrow> (fst st, calls)
                           | Some rows \<Rightarrow>
                               (dict_set (fst st) strategy_name (rows @ [make_row tk nm m]), calls))
                     else (fst st, calls))))"

text \<open>
  \<open>df_with_inst\<close>: \<open>None\<close> unless the global data was loaded and the loader returns without
  raising; a raise is swallowed by \<open>except: pass\<close>.
\<close>

definition merged_series :: "'df env \<Rightarrow> string \<Rightarrow> 'df option" where
  "merged_series e tk =
     (if institutional_data e
      then (case load_stock_with_institutional e tk of None \<Rightarrow> None | Some r \<Rightarrow> r)
      else None)"

text \<open>The body of the outer \<open>try\<close>, with its \<open>except: continue\<close>.\<close>

definition scan_file ::
  "'df env \<Rightarrow> real \<Rightarrow> (string \<times> strategy) list \<Rightarrow> 'df scan_state \<Rightarrow> string \<Rightarrow> 'df scan_state" where
  "scan_file e min_volume strats st csv_path =
     (case read_csv e csv_path of
        None \<Rightarrow> st
      | Some df \<Rightarrow>
          (case volume_mean e df of
             None \<Rightarrow> st
           | Some v \<Rightarrow>
               if float_lt v min_volume then st
               else let tk = ticker_of csv_path;
                        nm = name_of csv_path;
                        df_with_inst = merged_series e tk
                    in foldl (try_strategy e csv_path tk nm df df_with_inst) st strats))"

text \<open>\<open>results = {name: [] for name, _ in strategies}\<close>\<close>

definition init_results :: "(string \<times> strategy) list \<Rightarrow> (string \<times> row list) list" where
  "init_results strats = foldl (\<lambda>d item. dict_set d (fst item) []) [] strats"

definition scan_universe ::
  "'df env \<Rightarrow> real \<Rightarrow> (string \<times> strategy) list \<Rightarrow> string list \<Rightarrow> 'df scan_state" where
  "scan_universe e min_volume strats files =
     foldl (scan_file e min_volume strats) (init_results strats, []) files"

text \<open>The final loop: each non-empty table is sorted and truncated.\<close>

definition to_leaderboards ::
  "(real list \<Rightarrow> nat list) \<Rightarrow> int \<Rightarrow> (string \<times> row list) list \<Rightarrow> (string \<times> row list) list" where
  "to_leaderboards argsort top_n results =
     map (\<lambda>(nm, rows).
            (nm, if rows \<noteq> [] then df_head top_n (sort_values_desc argsort sharpe_ratio rows)
                 else []))
         results"

text \<open>The accepted results of a scan, before sorting, and the calls of the engine.\<close>

definition accepted :: "'df env \<Rightarrow> real \<Rightarrow> (string \<times> row list) list" where
  "accepted e min_volume =
     fst (scan_universe e min_volume (get_all_strategies True (institutional_data e)) (glob_files e))"

definition engine_calls :: "'df env \<Rightarrow> real \<Rightarrow> (string \<times> string \<times> 'df) list" where
  "engine_calls e min_volume =
     snd (scan_universe e min_volume (get_all_strategies True (institutional_data e)) (glob_files e))"

text \<open>
  The whole scan. \<open>compute_overall_ranking(results)\<close> is called without \<open>top_n\<close>, so with its
  default 30.
\<close>

definition market_scan_all_strategies ::
  "(real list \<Rightarrow> nat list) \<Rightarrow> 'df env \<Rightarrow> int \<Rightarrow> real
     \<Rightarrow> exn + ((string \<times> row list) list \<times> entry list)" where
  "market_scan_all_strategies argsort e top_n min_volume =
     (let results = to_leaderboards argsort top_n (accepted e min_volume)
      in case compute_overall_ranking argsort results 30 of
           Inl x \<Rightarrow> Inl x
         | Inr overall_ranking \<Rightarrow> Inr (results, overall_ranking))"

subsection \<open>Notions used to state the properties\<close>

text \<open>
  All (strategy name, row) pairs of the leaderboards, in the order in which
  \<open>compute_overall_ranking\<close> visits them, and those of one ticker.
\<close>

definition appearances :: "(string \<times> row list) list \<Rightarrow> (string \<times> row) list" where
  "appearances results = concat (map (\<lambda>(nm, df). map (Pair nm) df) results)"

definition appearances_of :: "(string \<times> row list) list \<Rightarrow> string \<Rightarrow> (string \<times> row) list" where
  "appearances_of results t = filter (\<lambda>p. ticker (snd p) = t) (appearances results)"

text \<open>
  The composite score of a ticker, from its leaderboard appearances: their number times the
  mean of their Sharpe ratios.
\<close>

definition ticker_score :: "(string \<times> row list) list \<Rightarrow> string \<Rightarrow> real" where
  "ticker_score results t =
     (let xs = map (\<lambda>p. sharpe_ratio (snd p)) (appearances_of results t)
      in real (length xs) * (sum_list xs / real (length xs)))"

text \<open>The tickers that are a member of at least one leaderboard.\<close>

definition lb_tickers :: "(string \<times> row list) list \<Rightarrow> string set" where
  "lb_tickers results = (\<Union>(nm, df) \<in> set results. ticker ` set df)"

text \<open>The two nested loops of \<open>compute_overall_ranking\<close> as one loop over the appearances.\<close>

definition add_pair :: "(string \<times> stats) list \<Rightarrow> string \<times> row \<Rightarrow> (string \<times> stats) list" where
  "add_pair ss p = add_row (fst p) ss (snd p)"

text \<open>The loop invariant: an accumulator holds exactly the appearances of its ticker.\<close>

definition stats_match :: "(string \<times> row) list \<Rightarrow> stats option \<Rightarrow> bool" where
  "stats_match ys so =
     (case so of
        None \<Rightarrow> ys = []
      | Some s \<Rightarrow> ys \<noteq> [] \<and> strategies s = map fst ys
                 \<and> sharpe_list s = map (\<lambda>p. sharpe_ratio (snd p)) ys
                 \<and> return_list s = map (\<lambda>p. total_return (snd p)) ys)"

definition stats_inv :: "(string \<times> row) list \<Rightarrow> (string \<times> stats) list \<Rightarrow> bool" where
  "stats_inv xs ss =
     (distinct (map fst ss) \<and>
      (\<forall>t. stats_match (filter (\<lambda>p. ticker (snd p) = t) xs) (map_of ss t)))"

text \<open>
  What one (instrument, strategy) pair contributes on its own: the accepted row of a backtest
  on the series \<open>run_df\<close>, if the engine returns and reports at least three trades.
\<close>

definition engine_rows :: "'df env \<Rightarrow> string \<Rightarrow> string \<Rightarrow> 'df \<Rightarrow> strategy \<Rightarrow> row list" where
  "engine_rows e tk nm run_df s =
     (case engine_run e run_df s of
        None \<Rightarrow> []
      | Some m \<Rightarrow> if 3 \<le> m_trade_count m then [make_row tk nm m] else [])"

definition pair_rows ::
  "'df env \<Rightarrow> string \<Rightarrow> string \<Rightarrow> 'df \<Rightarrow> 'df option \<Rightarrow> string \<times> strategy \<Rightarrow> row list" where
  "pair_rows e tk nm df dwi item =
     (case select_run_df e (fst item) df dwi of
        None \<Rightarrow> []
      | Some run_df \<Rightarrow> engine_rows e tk nm run_df (snd item))"

text \<open>
  The liquidity gate, as the code tests it: the file is read, its mean volume is computed, and
  the comparison \<open>mean < min_volume\<close> is false.
\<close>

definition passes_gate :: "'df env \<Rightarrow> real \<Rightarrow> string \<Rightarrow> bool" where
  "passes_gate e min_volume p =
     (case read_csv e p of
        None \<Rightarrow> False
      | Some df \<Rightarrow> (case volume_mean e df of None \<Rightarrow> False | Some v \<Rightarrow> \<not> float_lt v min_volume))"

text \<open>
  The series on which the engine is invoked for the file \<open>p\<close> and the strategy named \<open>n\<close>;
  \<open>None\<close> when the engine is not invoked for this pair.
\<close>

definition run_df_of :: "'df env \<Rightarrow> real \<Rightarrow> string \<Rightarrow> string \<Rightarrow> 'df option" where
  "run_df_of e min_volume p n =
     (case read_csv e p of
        None \<Rightarrow> None
      | Some df \<Rightarrow>
          (case volume_mean e df of
             None \<Rightarrow> None
           | Some v \<Rightarrow> if float_lt v min_volume then None
                       else select_run_df e n df (merged_series e (ticker_of p))))"

definition file_rows :: "'df env \<Rightarrow> real \<Rightarrow> string \<Rightarrow> string \<times> strategy \<Rightarrow> row list" where
  "file_rows e min_volume p item =
     (case run_df_of e min_volume p (fst item) of
        None \<Rightarrow> []
      | Some run_df \<Rightarrow> engine_rows e (ticker_of p) (name_of p) run_df (snd item))"

definition file_calls ::
  "'df env \<Rightarrow> real \<Rightarrow> string \<Rightarrow> string \<times> strategy \<Rightarrow> (string \<times> string \<times> 'df) list" where
  "file_calls e min_volume p item =
     (case run_df_of e min_volume p (fst item) of
        None \<Rightarrow> []
      | Some run_df \<Rightarrow> [(p, fst item, run_df)])"

text \<open>The merged institutional series of a ticker is unavailable: absent, or empty.\<close>

definition inst_unavailable :: "'df env \<Rightarrow> string \<Rightarrow> bool" where
  "inst_unavailable e tk =
     (case merged_series e tk of None \<Rightarrow> True | Some dwi \<Rightarrow> df_empty e dwi)"

text \<open>The environment in which the engine raises on the series \<open>d0\<close> with the strategy \<open>s0\<close>.\<close>

definition inject_failure :: "'df env \<Rightarrow> 'df \<Rightarrow> strategy \<Rightarrow> 'df env" where
  "inject_failure e d0 s0 =
     e\<lparr>engine_run := (\<lambda>d s. if d = d0 \<and> s = s0 then None else engine_run e d s)\<rparr>"

text \<open>The pair (file, strategy) is one on which the injected failure strikes.\<close>

definition hit :: "'df env \<Rightarrow> real \<Rightarrow> 'df \<Rightarrow> strategy \<Rightarrow> string \<Rightarrow> string \<times> strategy \<Rightarrow> bool" where
  "hit e min_volume d0 s0 p item =
     (snd item = s0 \<and> run_df_of e min_volume p (fst item) = Some d0)"

text \<open>Every strategy name is a key of the \<open>results\<close> dict.\<close>

definition keys_ok :: "(string \<times> strategy) list \<Rightarrow> (string \<times> row list) list \<Rightarrow> bool" where
  "keys_ok strats results = (\<forall>item \<in> set strats. fst item \<in> fst ` set results)"

text \<open>
  What holds of every accepted row: at least three trades, and the ticker and name of a scanned
  file that passes the gate.
\<close>

definition row_ok :: "'df env \<Rightarrow> real \<Rightarrow> row \<Rightarrow> bool" where
  "row_ok e min_volume r =
     (3 \<le> trade_count r \<and>
      (\<exists>p \<in> set (glob_files e).
         passes_gate e min_volume p \<and> ticker r = ticker_of p \<and> name r = name_of p))"

text \<open>The environment in which reading the price file \<open>p0\<close> raises.\<close>

definition inject_read_failure :: "'df env \<Rightarrow> string \<Rightarrow> 'df env" where
  "inject_read_failure e p0 =
     e\<lparr>read_csv := (\<lambda>p. if p = p0 then None else read_csv e p)\<rparr>"

text \<open>The environment in which loading the institutional series of the ticker \<open>t0\<close> raises.\<close>

definition inject_load_failure :: "'df env \<Rightarrow> string \<Rightarrow> 'df env" where
  "inject_load_failure e t0 =
     e\<lparr>load_stock_with_institutional :=
         (\<lambda>t. if t = t0 then None else load_stock_with_institutional e t)\<rparr>"

text \<open>
  A second admissible sort, which lists equal keys in the reverse of their original order.
\<close>

definition reversing_argsort :: "real list \<Rightarrow> nat list" where
  "reversing_argsort ks = rev (map snd (sort_key fst (zip ks [0..<length ks])))"

subsection \<open>Example inputs\<close>

definition ex_row :: "string \<Rightarrow> string \<Rightarrow> real \<Rightarrow> int \<Rightarrow> row" where
  "ex_row tk nm sh tc =
     \<lparr>ticker = tk, name = nm, total_return = 1 / 10, sharpe_ratio = sh,
      max_drawdown = 1 / 20, win_rate = 1 / 2, trade_count = tc\<rparr>"

text \<open>Two leaderboards: 2330 is in both, 2317 in the first.\<close>

definition ex_results :: "(string \<times> row list) list" where
  "ex_results =
     [(''MA5x20'', [ex_row ''2330'' ''TSMC'' 2 5, ex_row ''2317'' ''HonHai'' (3 / 2) 3]),
      (''RSI'', [ex_row ''2330'' ''TSMC'' 1 4])]"

text \<open>One leaderboard whose only member has a negative Sharpe ratio.\<close>

definition ex_negative :: "(string \<times> row list) list" where
  "ex_negative = [(''RSI'', [ex_row ''2330'' ''TSMC'' (- 1 / 2) 3])]"

text \<open>
  A universe of three instruments (series are numbered): 2330 and 2317 are liquid, 9999 is
  below the liquidity gate; only 2330 has a merged institutional series (number 11).
\<close>

definition ex_metrics :: "real \<Rightarrow> int \<Rightarrow> metrics" where
  "ex_metrics sh tc =
     \<lparr>m_total_return = 1 / 10, m_sharpe_ratio = sh, m_max_drawdown = 1 / 20,
      m_win_rate = 1 / 2, m_trade_count = tc\<rparr>"

definition ex_engine :: "nat \<Rightarrow> strategy \<Rightarrow> metrics option" where
  "ex_engine d s =
     (if d = 1 \<and> s = MACrossStrategy 5 20 then Some (ex_metrics 2 5)
      else if d = 1 \<and> s = RSIStrategy 30 70 then Some (ex_metrics 1 4)
      else if d = 2 \<and> s = MACrossStrategy 5 20 then Some (ex_metrics (3 / 2) 3)
      else if d = 2 \<and> s = RSIStrategy 30 70 then Some (ex_metrics 5 2)
      else if d = 2 \<and> s = MACDStrategy then Some (ex_metrics 1 3)
      else if d = 3 \<and> s = MACDStrategy then Some (ex_metrics 9 9)
      else if d = 11 \<and> s = InstitutionalFollowStrategy ''foreign'' 3 100
        then Some (ex_metrics (1 / 2) 3)
      else None)"

definition ex_env :: "nat env" where
  "ex_env =
     \<lparr>glob_files = [''dayK/2330_TSMC.csv'', ''dayK/2317_HonHai.csv'', ''dayK/9999_Thin.csv''],
      institutional_data = True,
      read_csv = (\<lambda>p. if p = ''dayK/2330_TSMC.csv'' then Some 1
                      else if p = ''dayK/2317_HonHai.csv'' then Some 2
                      else if p = ''dayK/9999_Thin.csv'' then Some 3 else None),
      volume_mean = (\<lambda>d. if d = 3 then Some (Num 100) else Some (Num 1000)),
      load_stock_with_institutional = (\<lambda>t. if t = ''2330'' then Some (Some 11) else None),
      df_empty = (\<lambda>d. False),
      engine_run = ex_engine\<rparr>"

text \<open>The same universe, where the volume column of 2317 holds no value: its mean is NaN.\<close>

definition ex_nan_env :: "nat env" where
  "ex_nan_env =
     ex_env\<lparr>volume_mean := (\<lambda>d. if d = 3 then Some (Num 100)
                               else if d = 2 then Some NaN else Some (Num 1000))\<rparr>"

subsection \<open>Lemmas: dictionaries, sorting, the ranking loop\<close>

lemma map_of_dict_set: "map_of (dict_set d k v) = (map_of d)(k \<mapsto> v)"
  by (induction d) (auto simp: fun_eq_iff)

lemma map_fst_dict_set:
  "map fst (dict_set d k v) = (if k \<in> fst ` set d then map fst d else map fst d @ [k])"
  by (induction d) force+

lemma distinct_dict_set: "distinct (map fst d) \<Longrightarrow> distinct (map fst (dict_set d k v))"
  by (simp add: map_fst_dict_set)

lemma set_dict_set_subset: "set (dict_set d k v) \<subseteq> insert (k, v) (set d)"
  by (induction d) (auto split: if_splits)

lemma rows_of_dict_set: "rows_of (dict_set d k v) k' = (if k' = k then v else rows_of d k')"
  by (simp add: rows_of_def map_of_dict_set)

lemma mset_sort_values_desc:
  assumes "argsort_ok a"
  shows "mset (sort_values_desc a key xs) = mset xs"
proof -
  have "mset (a (map key xs)) = mset [0..<length xs]"
    using assms by (simp add: argsort_ok_def)
  then have "mset (map (\<lambda>i. xs ! i) (a (map key xs))) = mset (map (\<lambda>i. xs ! i) [0..<length xs])"
    by (metis mset_map)
  then show ?thesis by (simp add: sort_values_desc_def map_nth)
qed

lemma sorted_sort_values_desc:
  assumes "argsort_ok a"
  shows "sorted_wrt (\<lambda>x y. x \<ge> y) (map key (sort_values_desc a key xs))"
proof -
  let ?ks = "map key xs"
  have m: "mset (a ?ks) = mset [0..<length xs]"
    using assms by (simp add: argsort_ok_def)
  have s: "sorted_wrt (\<lambda>x y. x \<ge> y) (map (\<lambda>i. ?ks ! i) (a ?ks))"
    using assms by (simp add: argsort_ok_def)
  have "set (a ?ks) = set [0..<length xs]" using m by (metis set_mset_mset)
  then have "\<forall>i \<in> set (a ?ks). i < length xs" by simp
  then have eq: "map key (map (\<lambda>i. xs ! i) (a ?ks)) = map (\<lambda>i. ?ks ! i) (a ?ks)"
    by simp
  show ?thesis unfolding sort_values_desc_def eq by (rule s)
qed

lemma stable_argsort_ok: "argsort_ok stable_argsort"
proof (unfold argsort_ok_def, intro allI conjI)
  fix ks :: "real list"
  let ?z = "zip ks [0..<length ks]"
  let ?s = "sort_key (\<lambda>p. - fst p) ?z"
  show "mset (stable_argsort ks) = mset [0..<length ks]"
  proof -
    have "mset (map snd ?s) = mset (map snd ?z)" by (simp only: mset_map mset_sort)
    also have "map snd ?z = [0..<length ks]" by (rule map_snd_zip) simp
    finally show ?thesis unfolding stable_argsort_def .
  qed
  have mem: "\<forall>p \<in> set ?s. ks ! snd p = fst p"
  proof
    fix p assume "p \<in> set ?s"
    then have "p \<in> set ?z" by simp
    then show "ks ! snd p = fst p" by (auto simp: set_zip)
  qed
  have eq: "map (\<lambda>i. ks ! i) (map snd ?s) = map fst ?s"
    using mem by simp
  have "sorted (map (\<lambda>p. - fst p) ?s)" by (rule sorted_sort_key)
  then have "sorted_wrt (\<lambda>x y. x \<ge> y) (map fst ?s)"
    by (simp add: sorted_wrt_map)
  then show "sorted_wrt (\<lambda>x y. x \<ge> y) (map (\<lambda>i. ks ! i) (stable_argsort ks))"
    unfolding stable_argsort_def eq .
qed

lemma foldl_add_row_pairs:
  "foldl (add_row nm) ss df = foldl add_pair ss (map (Pair nm) df)"
  by (induction df arbitrary: ss) (simp_all add: add_pair_def)

lemma foldl_add_table:
  "foldl add_table ss results = foldl add_pair ss (appearances results)"
proof (induction results arbitrary: ss)
  case Nil
  then show ?case by (simp add: appearances_def)
next
  case (Cons item results)
  obtain nm df where item: "item = (nm, df)" by (cases item)
  have "add_table ss item = foldl add_pair ss (map (Pair nm) df)"
    by (simp add: item add_table_def foldl_add_row_pairs)
  then show ?case
    using Cons.IH [of "add_table ss item"] by (simp add: appearances_def item)
qed

lemma collect_stats_appearances:
  "collect_stats results = foldl add_pair [] (appearances results)"
  by (simp add: collect_stats_def foldl_add_table)

lemma upd_stats_fields:
  "strategies (upd_stats nm r s) = strategies s @ [nm]"
  "sharpe_list (upd_stats nm r s) = sharpe_list s @ [sharpe_ratio r]"
  "return_list (upd_stats nm r s) = return_list s @ [total_return r]"
  by (simp_all add: upd_stats_def Let_def)

lemma map_of_add_pair:
  "map_of (add_pair ss p) =
     (map_of ss)(ticker (snd p) \<mapsto>
        upd_stats (fst p) (snd p)
          (case map_of ss (ticker (snd p)) of None \<Rightarrow> new_stats (snd p) | Some s \<Rightarrow> s))"
  by (simp add: add_pair_def add_row_def map_of_dict_set split: option.splits)

lemma distinct_add_pair:
  "distinct (map fst ss) \<Longrightarrow> distinct (map fst (add_pair ss p))"
  by (simp add: add_pair_def add_row_def distinct_dict_set split: option.splits)

lemma stats_match_step:
  "stats_match ys so \<Longrightarrow>
     stats_match (ys @ [p])
       (Some (upd_stats (fst p) (snd p) (case so of None \<Rightarrow> new_stats (snd p) | Some s \<Rightarrow> s)))"
  by (cases so) (simp_all add: stats_match_def upd_stats_fields new_stats_def)

lemma stats_inv_step:
  assumes "stats_inv xs ss"
  shows "stats_inv (xs @ [p]) (add_pair ss p)"
proof -
  have d: "distinct (map fst (add_pair ss p))"
    using assms by (simp add: stats_inv_def distinct_add_pair)
  have "stats_match (filter (\<lambda>p. ticker (snd p) = t) (xs @ [p])) (map_of (add_pair ss p) t)" for t
  proof (cases "ticker (snd p) = t")
    case True
    from assms have "stats_match (filter (\<lambda>p. ticker (snd p) = t) xs) (map_of ss t)"
      by (simp add: stats_inv_def)
    then show ?thesis
      using True stats_match_step [of "filter (\<lambda>p. ticker (snd p) = t) xs" "map_of ss t" p]
      by (simp add: map_of_add_pair)
  next
    case False
    from assms have "stats_match (filter (\<lambda>p. ticker (snd p) = t) xs) (map_of ss t)"
      by (simp add: stats_inv_def)
    with False show ?thesis
      by (auto simp add: map_of_add_pair)
  qed
  with d show ?thesis by (simp add: stats_inv_def)
qed

lemma stats_inv_foldl: "stats_inv xs (foldl add_pair [] xs)"
proof (induction xs rule: rev_induct)
  case Nil
  show ?case by (simp add: stats_inv_def stats_match_def)
next
  case (snoc p xs)
  then show ?case using stats_inv_step [of xs "foldl add_pair [] xs" p] by simp
qed

lemma stats_inv_collect: "stats_inv (appearances results) (collect_stats results)"
  by (simp add: collect_stats_appearances stats_inv_foldl)

lemma collect_stats_distinct: "distinct (map fst (collect_stats results))"
  using stats_inv_collect [of results] by (simp add: stats_inv_def)

lemma collect_stats_match:
  "stats_match (appearances_of results t) (map_of (collect_stats results) t)"
  using stats_inv_collect [of results] by (simp add: stats_inv_def appearances_of_def)

lemma collect_stats_member:
  assumes "(t, s) \<in> set (collect_stats results)"
  shows "appearances_of results t \<noteq> []"
    and "strategies s = map fst (appearances_of results t)"
    and "sharpe_list s = map (\<lambda>p. sharpe_ratio (snd p)) (appearances_of results t)"
    and "return_list s = map (\<lambda>p. total_return (snd p)) (appearances_of results t)"
proof -
  have "map_of (collect_stats results) t = Some s"
    using assms collect_stats_distinct by simp
  then have "stats_match (appearances_of results t) (Some s)"
    using collect_stats_match [of results t] by simp
  then show "appearances_of results t \<noteq> []"
    and "strategies s = map fst (appearances_of results t)"
    and "sharpe_list s = map (\<lambda>p. sharpe_ratio (snd p)) (appearances_of results t)"
    and "return_list s = map (\<lambda>p. total_return (snd p)) (appearances_of results t)"
    by (simp_all add: stats_match_def)
qed

lemma lb_tickers_appearances:
  "lb_tickers results = (\<lambda>p. ticker (snd p)) ` set (appearances results)"
  by (auto simp: lb_tickers_def appearances_def) force

lemma collect_stats_keys: "fst ` set (collect_stats results) = lb_tickers results"
proof -
  have "t \<in> fst ` set (collect_stats results) \<longleftrightarrow> t \<in> lb_tickers results" for t
  proof -
    have c: "case map_of (collect_stats results) t of
             None \<Rightarrow> appearances_of results t = []
           | Some s \<Rightarrow> appearances_of results t \<noteq> []"
      using collect_stats_match [of results t]
      by (auto simp: stats_match_def split: option.splits)
    have "t \<in> fst ` set (collect_stats results) \<longleftrightarrow> map_of (collect_stats results) t \<noteq> None"
      by (simp add: map_of_eq_None_iff)
    also have "\<dots> \<longleftrightarrow> appearances_of results t \<noteq> []"
      using c by (auto split: option.splits)
    also have "\<dots> \<longleftrightarrow> t \<in> lb_tickers results"
      by (auto simp: appearances_of_def lb_tickers_appearances filter_empty_conv)
    finally show ?thesis .
  qed
  then show ?thesis by blast
qed

lemma collect_stats_nonempty:
  "it \<in> set (collect_stats results) \<Longrightarrow> strategies (snd it) \<noteq> []"
  using collect_stats_member(1,2) [of "fst it" "snd it" results] by simp

lemma ranking_data_Inr:
  "\<forall>it \<in> set ss. strategies (snd it) \<noteq> [] \<Longrightarrow>
     ranking_data ss = Inr (map (\<lambda>it. projr (score_entry it)) ss)"
proof (induction ss)
  case Nil
  then show ?case by simp
next
  case (Cons it ss)
  obtain tk st where it: "it = (tk, st)" by (cases it)
  from Cons.prems have "strategies st \<noteq> []" by (simp add: it)
  then have "\<exists>en. score_entry it = Inr en"
    by (simp add: it score_entry_def Let_def)
  then obtain en where en: "score_entry it = Inr en" ..
  with Cons show ?case by simp
qed

lemma score_entry_fields:
  assumes "strategies st \<noteq> []"
  shows "e_ticker (projr (score_entry (tk, st))) = tk"
    and "strategy_count (projr (score_entry (tk, st))) = length (strategies st)"
    and "avg_sharpe (projr (score_entry (tk, st))) = sum_list (sharpe_list st) / real (length (strategies st))"
    and "score (projr (score_entry (tk, st)))
           = real (length (strategies st)) * (sum_list (sharpe_list st) / real (length (strategies st)))"
  using assms by (simp_all add: score_entry_def Let_def)

lemma ranking_data_collect:
  "ranking_data (collect_stats results)
     = Inr (map (\<lambda>it. projr (score_entry it)) (collect_stats results))"
  by (rule ranking_data_Inr) (simp add: collect_stats_nonempty)

lemma ranking_tickers:
  "map e_ticker (map (\<lambda>it. projr (score_entry it)) (collect_stats results))
     = map fst (collect_stats results)"
proof -
  have "\<forall>it \<in> set (collect_stats results).
          e_ticker (projr (score_entry it)) = fst it"
  proof
    fix it assume "it \<in> set (collect_stats results)"
    then have "strategies (snd it) \<noteq> []" by (rule collect_stats_nonempty)
    then show "e_ticker (projr (score_entry it)) = fst it"
      using score_entry_fields(1) [of "snd it" "fst it"] by simp
  qed
  then show ?thesis by simp
qed

lemmas ranking_eval =
  compute_overall_ranking_def collect_stats_def add_table_def add_row_def upd_stats_def
  new_stats_def score_entry_def sort_values_desc_def stable_argsort_def df_head_def
  ex_row_def Let_def

lemma ex_collect: "collect_stats ex_results =
  [(''2330'', \<lparr>s_name = ''TSMC'', strategies = [''MA5x20'', ''RSI''], sharpe_list = [2, 1],
       return_list = [1/10, 1/10], s_best_sharpe = 2, s_best_strategy = ''MA5x20''\<rparr>),
   (''2317'', \<lparr>s_name = ''HonHai'', strategies = [''MA5x20''], sharpe_list = [3/2],
       return_list = [1/10], s_best_sharpe = 3/2, s_best_strategy = ''MA5x20''\<rparr>)]"
  by (simp add: ex_results_def ranking_eval)



lemma set_df_head: "set (df_head n xs) \<subseteq> set xs"
  by (simp add: df_head_def set_take_subset)

lemma distinct_df_head: "distinct (map f xs) \<Longrightarrow> distinct (map f (df_head n xs))"
  by (simp add: df_head_def take_map [symmetric])

lemma length_df_head: "0 \<le> n \<Longrightarrow> length (df_head n xs) = min (nat n) (length xs)"
  by (simp add: df_head_def min.commute)

lemma df_head_all: "int (length xs) \<le> n \<Longrightarrow> df_head n xs = xs"
  by (simp add: df_head_def)

lemma compute_overall_ranking_eq:
  "compute_overall_ranking a results top_n =
     Inr (if collect_stats results \<noteq> []
          then df_head top_n (sort_values_desc a score
                 (map (\<lambda>it. projr (score_entry it)) (collect_stats results)))
          else [])"
  by (simp add: compute_overall_ranking_def ranking_data_collect)

lemma ranking_subset:
  assumes "argsort_ok a" and "compute_overall_ranking a results top_n = Inr rk"
  shows "set rk \<subseteq> (\<lambda>it. projr (score_entry it)) ` set (collect_stats results)"
proof (cases "collect_stats results = []")
  case True
  with assms(2) show ?thesis by (simp add: compute_overall_ranking_eq)
next
  case False
  let ?rd = "map (\<lambda>it. projr (score_entry it)) (collect_stats results)"
  have "rk = df_head top_n (sort_values_desc a score ?rd)"
    using assms(2) False by (simp add: compute_overall_ranking_eq)
  then have "set rk \<subseteq> set (sort_values_desc a score ?rd)"
    by (simp add: set_df_head)
  also have "\<dots> = set ?rd"
    using mset_sort_values_desc [OF assms(1), of score ?rd] by (metis set_mset_mset)
  finally show ?thesis by simp
qed

lemma ex_lb_tickers: "lb_tickers ex_results = {''2330'', ''2317''}"
  by (auto simp: lb_tickers_def ex_results_def ex_row_def)

lemma entry_score:
  assumes "it \<in> set (collect_stats results)"
  shows "score (projr (score_entry it)) = ticker_score results (fst it)"
proof -
  obtain t s where ts: "it = (t, s)" by (cases it)
  note f = collect_stats_member [OF assms [unfolded ts]]
  from f(1,2) have ne: "strategies s \<noteq> []" by simp
  have "length (strategies s) = length (appearances_of results t)" using f(2) by simp
  then show ?thesis
    unfolding ts score_entry_fields(4) [OF ne] f(3)
    by (simp add: ticker_score_def Let_def)
qed

lemma df_head_take: "\<exists>k. df_head n xs = take k xs"
  by (auto simp: df_head_def)

lemma sorted_head_le:
  assumes s: "sorted_wrt (\<lambda>x y. x \<ge> y) (map f xs)"
    and x: "x \<in> set (df_head n xs)" and y: "y \<in> set xs" and ny: "y \<notin> set (df_head n xs)"
  shows "f y \<le> f x"
proof -
  obtain k where k: "df_head n xs = take k xs" using df_head_take by blast
  have "xs = take k xs @ drop k xs" by simp
  then have "set xs = set (take k xs) \<union> set (drop k xs)" by (metis set_append)
  with y ny k have yd: "y \<in> set (drop k xs)" by auto
  from s have "sorted_wrt (\<lambda>x y. f x \<ge> f y) (take k xs @ drop k xs)"
    by (simp add: sorted_wrt_map)
  then have "\<forall>a \<in> set (take k xs). \<forall>b \<in> set (drop k xs). f a \<ge> f b"
    by (simp only: sorted_wrt_append) blast
  with x yd k show ?thesis by auto
qed

lemma head_full:
  assumes "0 \<le> n" and "y \<in> set xs" and "y \<notin> set (df_head n xs)"
  shows "length (df_head n xs) = nat n"
proof (cases "nat n < length xs")
  case True
  with assms(1) show ?thesis by (simp add: df_head_def)
next
  case False
  with assms(1) have "df_head n xs = xs" by (simp add: df_head_def)
  with assms(2,3) show ?thesis by simp
qed

lemma sorted_df_head:
  "sorted_wrt P (map f xs) \<Longrightarrow> sorted_wrt P (map f (df_head n xs))"
  by (simp add: df_head_def take_map [symmetric] sorted_wrt_take)

lemma ex_scores:
  "ticker_score ex_results ''2317'' = 3 / 2"
  "ticker_score ex_results ''2330'' = 3"
  by (simp_all add: ticker_score_def appearances_of_def appearances_def ex_results_def ex_row_def)

lemma ex_rank_1:
  "map (\<lambda>en. (e_ticker en, score en)) (projr (compute_overall_ranking stable_argsort ex_results 1))
     = [(''2330'', 3)]"
  by (simp add: ex_results_def ranking_eval)

subsection \<open>Lemmas: the scan loop\<close>

lemma concat_map_Nil: "concat (map (\<lambda>x. []) xs) = []"
  by (induction xs) simp_all

lemma map_of_Some_key: "map_of d k = Some v \<Longrightarrow> k \<in> fst ` set d"
  by (force dest: map_of_SomeD)

lemma try_strategy_keys:
  "map fst (fst (try_strategy e p tk nm df dwi st item)) = map fst (fst st)"
proof -
  have "map_of (fst st) k = Some rows \<Longrightarrow> map fst (dict_set (fst st) k v) = map fst (fst st)" for k rows v
    by (simp add: map_fst_dict_set map_of_Some_key)
  then show ?thesis
    by (auto simp: try_strategy_def Let_def split: prod.splits option.splits)
qed

lemma try_strategy_calls:
  "snd (try_strategy e p tk nm df dwi st item) =
     snd st @ (case select_run_df e (fst item) df dwi of
                 None \<Rightarrow> [] | Some run_df \<Rightarrow> [(p, fst item, run_df)])"
  by (auto simp: try_strategy_def Let_def split: prod.splits option.splits)

lemma try_strategy_rows:
  assumes "fst item \<in> fst ` set (fst st)"
  shows "rows_of (fst (try_strategy e p tk nm df dwi st item)) n =
           rows_of (fst st) n @ (if fst item = n then pair_rows e tk nm df dwi item else [])"
proof -
  obtain k s where item: "item = (k, s)" by (cases item)
  from assms have "map_of (fst st) k \<noteq> None"
    by (simp add: item map_of_eq_None_iff)
  then obtain rows where rows: "map_of (fst st) k = Some rows" by blast
  then have r: "rows_of (fst st) k = rows" by (simp add: rows_of_def)
  show ?thesis
    using rows r
    by (auto simp: item try_strategy_def pair_rows_def engine_rows_def Let_def rows_of_dict_set
        split: option.splits)
qed

lemma foldl_try_strategy:
  assumes "keys_ok strats (fst st)"
  shows "map fst (fst (foldl (try_strategy e p tk nm df dwi) st strats)) = map fst (fst st)
       \<and> rows_of (fst (foldl (try_strategy e p tk nm df dwi) st strats)) n =
           rows_of (fst st) n
             @ concat (map (\<lambda>item. if fst item = n then pair_rows e tk nm df dwi item else []) strats)
       \<and> snd (foldl (try_strategy e p tk nm df dwi) st strats) =
           snd st @ concat (map (\<lambda>item. case select_run_df e (fst item) df dwi of
                                     None \<Rightarrow> [] | Some run_df \<Rightarrow> [(p, fst item, run_df)]) strats)"
  using assms
proof (induction strats arbitrary: st)
  case Nil
  then show ?case by simp
next
  case (Cons item strats)
  let ?st = "try_strategy e p tk nm df dwi st item"
  have k: "map fst (fst ?st) = map fst (fst st)" by (rule try_strategy_keys)
  then have "fst ` set (fst ?st) = fst ` set (fst st)" by (metis set_map)
  with Cons.prems have ok: "keys_ok strats (fst ?st)" by (simp add: keys_ok_def)
  from Cons.prems have m: "fst item \<in> fst ` set (fst st)" by (simp add: keys_ok_def)
  show ?case
    using Cons.IH [OF ok] k try_strategy_rows [OF m, of e p tk nm df dwi n]
      try_strategy_calls [of e p tk nm df dwi st item]
    by simp
qed

lemma scan_file_char:
  assumes "keys_ok strats (fst st)"
  shows "map fst (fst (scan_file e minv strats st p)) = map fst (fst st)
       \<and> rows_of (fst (scan_file e minv strats st p)) n =
           rows_of (fst st) n
             @ concat (map (\<lambda>item. if fst item = n then file_rows e minv p item else []) strats)
       \<and> snd (scan_file e minv strats st p) =
           snd st @ concat (map (file_calls e minv p) strats)"
proof (cases "passes_gate e minv p")
  case False
  then have "scan_file e minv strats st p = st"
    by (auto simp: passes_gate_def scan_file_def split: option.splits)
  moreover from False have "run_df_of e minv p k = None" for k
    by (auto simp: passes_gate_def run_df_of_def split: option.splits)
  ultimately show ?thesis
    by (auto simp: file_rows_def file_calls_def concat_map_Nil)
next
  case True
  then obtain df v where df: "read_csv e p = Some df" and v: "volume_mean e df = Some v"
    and g: "\<not> float_lt v minv"
    by (auto simp: passes_gate_def split: option.splits)
  have s: "scan_file e minv strats st p =
             foldl (try_strategy e p (ticker_of p) (name_of p) df (merged_series e (ticker_of p))) st strats"
    using df v g by (simp add: scan_file_def Let_def)
  have r: "run_df_of e minv p k = select_run_df e k df (merged_series e (ticker_of p))" for k
    using df v g by (simp add: run_df_of_def)
  have fr: "file_rows e minv p item
              = pair_rows e (ticker_of p) (name_of p) df (merged_series e (ticker_of p)) item" for item
    by (simp add: file_rows_def pair_rows_def r)
  have fr': "(\<lambda>item. if fst item = n then file_rows e minv p item else []) =
               (\<lambda>item. if fst item = n
                       then pair_rows e (ticker_of p) (name_of p) df (merged_series e (ticker_of p)) item
                       else [])"
    by (simp add: fr cong: if_cong)
  have fc': "file_calls e minv p =
               (\<lambda>item. case select_run_df e (fst item) df (merged_series e (ticker_of p)) of
                         None \<Rightarrow> [] | Some run_df \<Rightarrow> [(p, fst item, run_df)])"
    by (simp add: fun_eq_iff file_calls_def r)
  show ?thesis
    unfolding s fr' fc' by (rule foldl_try_strategy [OF assms])
qed

lemma foldl_scan_file:
  assumes "keys_ok strats (fst st)"
  shows "map fst (fst (foldl (scan_file e minv strats) st files)) = map fst (fst st)
       \<and> rows_of (fst (foldl (scan_file e minv strats) st files)) n =
           rows_of (fst st) n
             @ concat (map (\<lambda>p. concat (map (\<lambda>item. if fst item = n then file_rows e minv p item else [])
                                     strats)) files)
       \<and> snd (foldl (scan_file e minv strats) st files) =
           snd st @ concat (map (\<lambda>p. concat (map (file_calls e minv p) strats)) files)"
  using assms
proof (induction files arbitrary: st)
  case Nil
  then show ?case by simp
next
  case (Cons p files)
  let ?st = "scan_file e minv strats st p"
  note c = scan_file_char [OF Cons.prems, of e minv p n]
  from c have "fst ` set (fst ?st) = fst ` set (fst st)" by (metis set_map)
  with Cons.prems have ok: "keys_ok strats (fst ?st)" by (simp add: keys_ok_def)
  show ?case using Cons.IH [OF ok] c by simp
qed

lemma map_of_init:
  "map_of (foldl (\<lambda>d item. dict_set d (fst item) []) d strats) =
     (\<lambda>n. if n \<in> fst ` set strats then Some [] else map_of d n)"
  by (induction strats arbitrary: d) (auto simp: map_of_dict_set fun_eq_iff)

lemma distinct_init:
  "distinct (map fst d) \<Longrightarrow>
     distinct (map fst (foldl (\<lambda>d item. dict_set d (fst item) ([]::row list)) d strats))"
  by (induction strats arbitrary: d) (simp_all add: distinct_dict_set)

lemma keys_init:
  "distinct (map fst strats) \<Longrightarrow> map fst (init_results strats) = map fst strats"
proof (induction strats rule: rev_induct)
  case Nil
  then show ?case by (simp add: init_results_def)
next
  case (snoc item strats)
  then have ih: "map fst (init_results strats) = map fst strats" by simp
  then have "set (map fst (init_results strats)) = set (map fst strats)" by simp
  then have k: "fst ` set (init_results strats) = fst ` set strats" by (simp only: set_map)
  from snoc.prems have n: "fst item \<notin> fst ` set strats" by auto
  have "init_results (strats @ [item]) = dict_set (init_results strats) (fst item) []"
    by (simp add: init_results_def)
  then have "map fst (init_results (strats @ [item])) = map fst (init_results strats) @ [fst item]"
    using n k by (simp only: map_fst_dict_set if_False)
  then show ?case using ih by simp
qed

lemma init_results_props:
  "keys_ok strats (init_results strats)"
  "rows_of (init_results strats) n = []"
  "distinct (map fst (init_results strats))"
proof -
  have m: "map_of (init_results strats) = (\<lambda>n. if n \<in> fst ` set strats then Some [] else None)"
    unfolding init_results_def map_of_init by auto
  show "keys_ok strats (init_results strats)"
    unfolding keys_ok_def
  proof
    fix item assume "item \<in> set strats"
    then have "map_of (init_results strats) (fst item) \<noteq> None" by (simp add: m)
    then show "fst item \<in> fst ` set (init_results strats)" by (simp add: map_of_eq_None_iff)
  qed
  show "rows_of (init_results strats) n = []" by (simp add: rows_of_def m)
  show "distinct (map fst (init_results strats))"
    by (simp add: init_results_def distinct_init)
qed

lemma scan_universe_char:
  "map fst (fst (scan_universe e minv strats files)) = map fst (init_results strats)"
  "rows_of (fst (scan_universe e minv strats files)) n =
     concat (map (\<lambda>p. concat (map (\<lambda>item. if fst item = n then file_rows e minv p item else [])
                              strats)) files)"
  "snd (scan_universe e minv strats files) =
     concat (map (\<lambda>p. concat (map (file_calls e minv p) strats)) files)"
proof -
  have ok: "keys_ok strats (fst (init_results strats, []::(string \<times> string \<times> 'a) list))"
    by (simp add: init_results_props(1))
  note c = foldl_scan_file [OF ok, of e minv files n, folded scan_universe_def]
  from c show "map fst (fst (scan_universe e minv strats files)) = map fst (init_results strats)"
    by simp
  from c show "rows_of (fst (scan_universe e minv strats files)) n =
     concat (map (\<lambda>p. concat (map (\<lambda>item. if fst item = n then file_rows e minv p item else [])
                              strats)) files)"
    by (simp add: init_results_props(2))
  from c show "snd (scan_universe e minv strats files) =
     concat (map (\<lambda>p. concat (map (file_calls e minv p) strats)) files)"
    by simp
qed

lemma concat_map_if:
  "concat (map (\<lambda>x. if P x then [f x] else []) xs) = map f (filter P xs)"
  by (induction xs) simp_all

lemma names_distinct: "distinct (map fst (get_all_strategies inc b))"
proof -
  have "distinct (map fst (get_all_strategies True True))" by code_simp
  moreover have "distinct (map fst (get_all_strategies True False))" by code_simp
  moreover have "distinct (map fst (get_all_strategies False True))" by code_simp
  moreover have "distinct (map fst (get_all_strategies False False))" by code_simp
  ultimately show ?thesis by (cases inc; cases b) simp_all
qed

lemma accepted_keys:
  "map fst (accepted e minv) = map fst (get_all_strategies True (institutional_data e))"
  by (simp add: accepted_def scan_universe_char(1) keys_init names_distinct)

lemma accepted_distinct: "distinct (map fst (accepted e minv))"
  by (simp add: accepted_keys names_distinct)

lemma accepted_rows:
  "rows_of (accepted e minv) n =
     concat (map (\<lambda>p. concat (map (\<lambda>item. if fst item = n then file_rows e minv p item else [])
                              (get_all_strategies True (institutional_data e)))) (glob_files e))"
  by (simp add: accepted_def scan_universe_char(2))

lemma engine_calls_eq:
  "engine_calls e minv =
     concat (map (\<lambda>p. concat (map (file_calls e minv p)
                              (get_all_strategies True (institutional_data e)))) (glob_files e))"
  by (simp add: engine_calls_def scan_universe_char(3))

lemma rows_of_member:
  "distinct (map fst d) \<Longrightarrow> (k, rows) \<in> set d \<Longrightarrow> rows_of d k = rows"
  by (simp add: rows_of_def)

lemma to_leaderboards_map:
  "to_leaderboards a top_n d =
     map (\<lambda>x. (fst x, if snd x \<noteq> [] then df_head top_n (sort_values_desc a sharpe_ratio (snd x))
                      else [])) d"
  unfolding to_leaderboards_def by (rule map_cong) (simp_all add: case_prod_beta)

lemma to_leaderboards_keys: "map fst (to_leaderboards a top_n d) = map fst d"
  unfolding to_leaderboards_map by (induction d) simp_all

lemma to_leaderboards_member:
  assumes "(nm, lb) \<in> set (to_leaderboards a top_n d)"
  shows "\<exists>rows. (nm, rows) \<in> set d
           \<and> lb = (if rows \<noteq> [] then df_head top_n (sort_values_desc a sharpe_ratio rows) else [])"
proof -
  from assms obtain x where x: "x \<in> set d"
    and eq: "(nm, lb) = (fst x, if snd x \<noteq> [] then df_head top_n (sort_values_desc a sharpe_ratio (snd x))
                      else [])"
    unfolding to_leaderboards_map set_map by (rule imageE)
  from eq have "nm = fst x" by (rule Pair_inject)
  with x have "(nm, snd x) \<in> set d" by simp
  moreover from eq have "lb = (if snd x \<noteq> [] then df_head top_n (sort_values_desc a sharpe_ratio (snd x))
                      else [])" by (rule Pair_inject)
  ultimately show ?thesis by blast
qed

lemma market_scan_eq:
  "market_scan_all_strategies a e top_n minv =
     Inr (to_leaderboards a top_n (accepted e minv),
          projr (compute_overall_ranking a (to_leaderboards a top_n (accepted e minv)) 30))"
  by (simp add: market_scan_all_strategies_def Let_def compute_overall_ranking_eq)

lemma leaderboard_props:
  assumes ok: "argsort_ok a" and m: "(nm, lb) \<in> set (to_leaderboards a top_n d)"
    and d: "distinct (map fst d)"
  shows "set lb \<subseteq> set (rows_of d nm)"
    and "0 \<le> top_n \<Longrightarrow> int (length lb) \<le> top_n"
    and "sorted_wrt (\<lambda>x y. x \<ge> y) (map sharpe_ratio lb)"
    and "rows_of d nm = [] \<Longrightarrow> lb = []"
proof -
  from to_leaderboards_member [OF m] obtain rows where r: "(nm, rows) \<in> set d"
    and lb: "lb = (if rows \<noteq> [] then df_head top_n (sort_values_desc a sharpe_ratio rows) else [])"
    by blast
  have ro: "rows_of d nm = rows" using d r by (rule rows_of_member)
  have s: "set (sort_values_desc a sharpe_ratio rows) = set rows"
    using mset_sort_values_desc [OF ok, of sharpe_ratio rows] by (metis set_mset_mset)
  show "set lb \<subseteq> set (rows_of d nm)"
    unfolding ro lb using set_df_head [of top_n "sort_values_desc a sharpe_ratio rows"] s by auto
  show "int (length lb) \<le> top_n" if "0 \<le> top_n"
    unfolding lb using that by (auto simp: length_df_head min_def)
  have "sorted_wrt (\<lambda>x y. x \<ge> y) (map sharpe_ratio (sort_values_desc a sharpe_ratio rows))"
    by (rule sorted_sort_values_desc [OF ok])
  then have "sorted_wrt (\<lambda>x y. x \<ge> y)
               (map sharpe_ratio (df_head top_n (sort_values_desc a sharpe_ratio rows)))"
    by (simp add: df_head_def take_map [symmetric] sorted_wrt_take)
  then show "sorted_wrt (\<lambda>x y. x \<ge> y) (map sharpe_ratio lb)"
    unfolding lb by simp
  show "lb = []" if "rows_of d nm = []"
    using that unfolding ro lb by simp
qed

lemma run_df_of_Some_gate: "run_df_of e minv p k = Some rd \<Longrightarrow> passes_gate e minv p"
  unfolding run_df_of_def passes_gate_def
  by (simp split: option.split_asm if_split_asm)

lemma engine_rows_member:
  "r \<in> set (engine_rows e tk nm rd s) \<Longrightarrow> 3 \<le> trade_count r \<and> ticker r = tk \<and> name r = nm"
  by (cases "engine_run e rd s") (simp_all add: engine_rows_def make_row_def split: if_splits)

lemma file_rows_ok:
  assumes "r \<in> set (file_rows e minv p item)"
  shows "3 \<le> trade_count r \<and> passes_gate e minv p \<and> ticker r = ticker_of p \<and> name r = name_of p"
proof (cases "run_df_of e minv p (fst item)")
  case None
  with assms show ?thesis by (simp add: file_rows_def)
next
  case (Some rd)
  with assms have "r \<in> set (engine_rows e (ticker_of p) (name_of p) rd (snd item))"
    by (simp add: file_rows_def)
  from engine_rows_member [OF this] run_df_of_Some_gate [OF Some] show ?thesis by simp
qed

lemma file_calls_ok:
  assumes "c \<in> set (file_calls e minv p item)"
  shows "passes_gate e minv p \<and> fst c = p"
proof (cases "run_df_of e minv p (fst item)")
  case None
  with assms show ?thesis by (simp add: file_calls_def)
next
  case (Some rd)
  with assms run_df_of_Some_gate [OF Some] show ?thesis by (simp add: file_calls_def)
qed

lemma accepted_row_ok:
  assumes "r \<in> set (rows_of (accepted e minv) n)"
  shows "row_ok e minv r"
proof -
  let ?g = "\<lambda>p item. if fst item = n then file_rows e minv p item else []"
  let ?f = "\<lambda>p. concat (map (?g p) (get_all_strategies True (institutional_data e)))"
  from assms have "r \<in> set (concat (map ?f (glob_files e)))"
    by (simp only: accepted_rows)
  then obtain p where p: "p \<in> set (glob_files e)" and "r \<in> set (?f p)"
    by (auto simp only: set_concat set_map)
  then obtain item where "r \<in> set (?g p item)"
    by (auto simp only: set_concat set_map)
  then have r: "r \<in> set (file_rows e minv p item)"
    by (cases "fst item = n") simp_all
  from file_rows_ok [OF r] p show ?thesis unfolding row_ok_def by blast
qed

lemma passes_gate_iff:
  "passes_gate e minv p \<longleftrightarrow>
     (\<exists>df m. read_csv e p = Some df \<and> volume_mean e df = Some m
             \<and> (m = NaN \<or> (\<exists>v. m = Num v \<and> minv \<le> v)))"
proof (cases "read_csv e p")
  case None
  then show ?thesis by (simp add: passes_gate_def)
next
  case (Some df)
  show ?thesis
  proof (cases "volume_mean e df")
    case None
    with Some show ?thesis by (simp add: passes_gate_def)
  next
    case m: (Some m)
    show ?thesis
      using Some m by (cases m) (simp_all add: passes_gate_def float_lt_def not_less)
  qed
qed

lemma scan_file_below_gate:
  "\<not> passes_gate e minv p \<Longrightarrow> scan_file e minv strats st p = st"
  by (simp add: passes_gate_def scan_file_def split: option.splits)

lemmas scan_eval =
  accepted_def engine_calls_def scan_universe_def scan_file_def try_strategy_def select_run_df_def
  merged_series_def init_results_def get_all_strategies_def is_institutional_def
  name_bollinger_def name_momentum_def name_volume_def name_turtle_def name_foreign_def
  name_trust_def lian_mai_def lian_mai_sell_def ticker_of_def name_of_def basename_def
  make_row_def ex_env_def ex_engine_def ex_metrics_def float_lt_def Let_def

lemma ex_accepted: "accepted ex_env 500 =
  [(''MA5x20'', [ex_row ''2330'' ''TSMC'' 2 5, ex_row ''2317'' ''HonHai'' (3 / 2) 3]),
   (''MA5x60'', []),
   (''RSI'', [ex_row ''2330'' ''TSMC'' 1 4]),
   (''MACD'', [ex_row ''2317'' ''HonHai'' 1 3]),
   (name_bollinger, []), (name_momentum, []), (name_volume, []), (name_turtle, []),
   (name_foreign, [ex_row ''2330'' ''TSMC'' (1 / 2) 3]),
   (name_trust, [])]"
  by (simp add: scan_eval ex_row_def)

lemmas lb_eval = to_leaderboards_def sort_values_desc_def stable_argsort_def df_head_def ex_row_def

lemma ex_leaderboards_30: "to_leaderboards stable_argsort 30 (accepted ex_env 500) =
  [(''MA5x20'', [ex_row ''2330'' ''TSMC'' 2 5, ex_row ''2317'' ''HonHai'' (3 / 2) 3]),
   (''MA5x60'', []),
   (''RSI'', [ex_row ''2330'' ''TSMC'' 1 4]),
   (''MACD'', [ex_row ''2317'' ''HonHai'' 1 3]),
   (name_bollinger, []), (name_momentum, []), (name_volume, []), (name_turtle, []),
   (name_foreign, [ex_row ''2330'' ''TSMC'' (1 / 2) 3]),
   (name_trust, [])]"
  by (simp add: ex_accepted lb_eval)

lemma ex_leaderboards_1: "to_leaderboards stable_argsort 1 (accepted ex_env 500) =
  [(''MA5x20'', [ex_row ''2330'' ''TSMC'' 2 5]),
   (''MA5x60'', []),
   (''RSI'', [ex_row ''2330'' ''TSMC'' 1 4]),
   (''MACD'', [ex_row ''2317'' ''HonHai'' 1 3]),
   (name_bollinger, []), (name_momentum, []), (name_volume, []), (name_turtle, []),
   (name_foreign, [ex_row ''2330'' ''TSMC'' (1 / 2) 3]),
   (name_trust, [])]"
  by (simp add: ex_accepted lb_eval)

lemma ex_ranking_1:
  "map (\<lambda>en. (e_ticker en, strategy_count en, score en))
     (projr (compute_overall_ranking stable_argsort
               (to_leaderboards stable_argsort 1 (accepted ex_env 500)) 30))
   = [(''2330'', 3, 7 / 2), (''2317'', 1, 1)]"
  by (simp add: ex_leaderboards_1 ranking_eval name_bollinger_def name_momentum_def
      name_volume_def name_turtle_def name_foreign_def name_trust_def lian_mai_def)

lemma battery_kinds:
  "list_all (\<lambda>item. is_institutional (fst item) =
                (case snd item of InstitutionalFollowStrategy w k t \<Rightarrow> True | _ \<Rightarrow> False))
     (get_all_strategies True True)"
  by code_simp

lemma inject_fields:
  "glob_files (inject_failure e d0 s0) = glob_files e"
  "institutional_data (inject_failure e d0 s0) = institutional_data e"
  "read_csv (inject_failure e d0 s0) = read_csv e"
  "volume_mean (inject_failure e d0 s0) = volume_mean e"
  "load_stock_with_institutional (inject_failure e d0 s0) = load_stock_with_institutional e"
  "df_empty (inject_failure e d0 s0) = df_empty e"
  "engine_run (inject_failure e d0 s0) d s = (if d = d0 \<and> s = s0 then None else engine_run e d s)"
  by (simp_all add: inject_failure_def)

lemma run_df_of_inject: "run_df_of (inject_failure e d0 s0) minv p n = run_df_of e minv p n"
  by (simp add: run_df_of_def select_run_df_def merged_series_def inject_fields
      split: option.splits)

lemma engine_rows_inject:
  "engine_rows (inject_failure e d0 s0) tk nm rd s =
     (if rd = d0 \<and> s = s0 then [] else engine_rows e tk nm rd s)"
  by (simp add: engine_rows_def inject_fields)

lemma file_rows_inject:
  "file_rows (inject_failure e d0 s0) minv p item =
     (if hit e minv d0 s0 p item then [] else file_rows e minv p item)"
proof (cases "run_df_of e minv p (fst item)")
  case None
  then show ?thesis by (simp add: file_rows_def run_df_of_inject hit_def)
next
  case (Some rd)
  then show ?thesis
    by (auto simp add: file_rows_def run_df_of_inject hit_def engine_rows_inject)
qed

lemma accepted_rows_inject:
  "rows_of (accepted (inject_failure e d0 s0) minv) n =
     concat (map (\<lambda>p. concat (map (\<lambda>item. if fst item = n \<and> \<not> hit e minv d0 s0 p item
                                         then file_rows e minv p item else [])
                              (get_all_strategies True (institutional_data e)))) (glob_files e))"
proof -
  have "(\<lambda>item. if fst item = n then file_rows (inject_failure e d0 s0) minv p item else []) =
        (\<lambda>item. if fst item = n \<and> \<not> hit e minv d0 s0 p item then file_rows e minv p item else [])"
    for p
    by (rule ext) (simp add: file_rows_inject)
  then show ?thesis
    by (simp only: accepted_rows inject_fields)
qed

lemma ex_inject_rsi:
  "rows_of (accepted (inject_failure ex_env 1 (RSIStrategy 30 70)) 500) ''RSI'' = []"
  by (simp add: scan_eval inject_failure_def rows_of_def)

lemma ex_rows:
  "rows_of (accepted ex_env 500) ''MA5x20''
     = [ex_row ''2330'' ''TSMC'' 2 5, ex_row ''2317'' ''HonHai'' (3 / 2) 3]"
  "rows_of (accepted ex_env 500) ''MA5x60'' = []"
  "rows_of (accepted ex_env 500) ''RSI'' = [ex_row ''2330'' ''TSMC'' 1 4]"
  by (simp_all add: ex_accepted rows_of_def)

lemma ex_nohit:
  "\<forall>p \<in> set (glob_files ex_env). \<forall>item \<in> set (get_all_strategies True (institutional_data ex_env)).
          fst item = ''MA5x20'' \<longrightarrow> \<not> hit ex_env 500 1 (RSIStrategy 30 70) p item"
  by (simp add: hit_def get_all_strategies_def ex_env_def)

lemma sorted_desc_adjacent:
  assumes "sorted_wrt (\<lambda>x y. x \<ge> y) (map f xs)" and "Suc i < length xs"
  shows "f (xs ! Suc i) \<le> f (xs ! i)"
proof -
  from assms(1) have "sorted_wrt (\<lambda>x y. f x \<ge> f y) xs" by (simp add: sorted_wrt_map)
  then show ?thesis using assms(2) by (simp add: sorted_wrt_iff_nth_less)
qed

lemma ex_scan_1:
  "market_scan_all_strategies stable_argsort ex_env 1 500 =
     Inr (to_leaderboards stable_argsort 1 (accepted ex_env 500),
          projr (compute_overall_ranking stable_argsort
                   (to_leaderboards stable_argsort 1 (accepted ex_env 500)) 30))"
  by (rule market_scan_eq)

lemma ex_gate:
  "passes_gate ex_env 500 ''dayK/2317_HonHai.csv''"
  "\<not> passes_gate ex_env 500 ''dayK/9999_Thin.csv''"
  "ticker_of ''dayK/2317_HonHai.csv'' = ''2317''"
  "name_of ''dayK/2317_HonHai.csv'' = ''HonHai''"
  by (simp_all add: passes_gate_def float_lt_def ex_env_def ticker_of_def name_of_def basename_def)

lemma ex_calls:
  "engine_calls ex_env 500 =
     [(''dayK/2330_TSMC.csv'', ''MA5x20'', 1), (''dayK/2330_TSMC.csv'', ''MA5x60'', 1),
      (''dayK/2330_TSMC.csv'', ''RSI'', 1), (''dayK/2330_TSMC.csv'', ''MACD'', 1),
      (''dayK/2330_TSMC.csv'', name_bollinger, 1), (''dayK/2330_TSMC.csv'', name_momentum, 1),
      (''dayK/2330_TSMC.csv'', name_volume, 1), (''dayK/2330_TSMC.csv'', name_turtle, 1),
      (''dayK/2330_TSMC.csv'', name_foreign, 11), (''dayK/2330_TSMC.csv'', name_trust, 11),
      (''dayK/2317_HonHai.csv'', ''MA5x20'', 2), (''dayK/2317_HonHai.csv'', ''MA5x60'', 2),
      (''dayK/2317_HonHai.csv'', ''RSI'', 2), (''dayK/2317_HonHai.csv'', ''MACD'', 2),
      (''dayK/2317_HonHai.csv'', name_bollinger, 2), (''dayK/2317_HonHai.csv'', name_momentum, 2),
      (''dayK/2317_HonHai.csv'', name_volume, 2), (''dayK/2317_HonHai.csv'', name_turtle, 2)]"
  by (simp add: scan_eval)

lemma run_df_of_unavailable:
  assumes "read_csv e p = Some df" and "passes_gate e minv p"
    and "inst_unavailable e (ticker_of p)"
  shows "run_df_of e minv p k = (if is_institutional k then None else Some df)"
proof -
  from assms(1,2) obtain v where v: "volume_mean e df = Some v" and g: "\<not> float_lt v minv"
    by (auto simp: passes_gate_def split: option.splits)
  have "select_run_df e k df (merged_series e (ticker_of p))
          = (if is_institutional k then None else Some df)"
    using assms(3) by (simp add: select_run_df_def inst_unavailable_def split: option.splits)
  then show ?thesis using assms(1) v g by (simp add: run_df_of_def)
qed

lemma ex_unavailable:
  "read_csv ex_env ''dayK/2317_HonHai.csv'' = Some 2"
  "inst_unavailable ex_env (ticker_of ''dayK/2317_HonHai.csv'')"
  by (simp_all add: inst_unavailable_def merged_series_def ex_env_def ticker_of_def basename_def)

lemma ex_price_only:
  "filter (\<lambda>item. \<not> is_institutional (fst item)) (get_all_strategies True True) =
     [(''MA5x20'', MACrossStrategy 5 20), (''MA5x60'', MACrossStrategy 5 60),
      (''RSI'', RSIStrategy 30 70), (''MACD'', MACDStrategy),
      (name_bollinger, BollingerStrategy), (name_momentum, MomentumBreakoutStrategy 20),
      (name_volume, VolumeBreakoutStrategy 2), (name_turtle, TurtleStrategy 20 10)]"
  by (simp add: get_all_strategies_def is_institutional_def name_bollinger_def name_momentum_def
      name_volume_def name_turtle_def name_foreign_def name_trust_def lian_mai_def
      lian_mai_sell_def)

lemma reversing_argsort_ok: "argsort_ok reversing_argsort"
proof (unfold argsort_ok_def, intro allI conjI)
  fix ks :: "real list"
  let ?z = "zip ks [0..<length ks]"
  let ?s = "sort_key fst ?z"
  show "mset (reversing_argsort ks) = mset [0..<length ks]"
  proof -
    have "mset (rev (map snd ?s)) = mset (map snd ?z)" by (simp only: mset_rev mset_map mset_sort)
    also have "map snd ?z = [0..<length ks]" by (rule map_snd_zip) simp
    finally show ?thesis unfolding reversing_argsort_def .
  qed
  have mem: "\<forall>p \<in> set ?s. ks ! snd p = fst p"
  proof
    fix p assume "p \<in> set ?s"
    then have "p \<in> set ?z" by simp
    then show "ks ! snd p = fst p" by (auto simp: set_zip)
  qed
  have eq: "map (\<lambda>i. ks ! i) (map snd ?s) = map fst ?s"
    using mem by simp
  have "sorted (map fst ?s)" by (rule sorted_sort_key)
  then have "sorted_wrt (\<lambda>x y. x \<ge> y) (rev (map fst ?s))"
    by (simp add: sorted_wrt_rev)
  then show "sorted_wrt (\<lambda>x y. x \<ge> y) (map (\<lambda>i. ks ! i) (reversing_argsort ks))"
    unfolding reversing_argsort_def rev_map [symmetric] eq .
qed

text \<open>
  The contract of the sort does not fix the order of rows with equal keys: the two admissible
  sorts order two rows of equal Sharpe ratio differently.
\<close>

lemma tie_order_not_determined:
  "argsort_ok stable_argsort \<and> argsort_ok reversing_argsort
   \<and> map ticker (sort_values_desc stable_argsort sharpe_ratio
        [ex_row ''2330'' ''TSMC'' 1 3, ex_row ''2317'' ''HonHai'' 1 3]) = [''2330'', ''2317'']
   \<and> map ticker (sort_values_desc reversing_argsort sharpe_ratio
        [ex_row ''2330'' ''TSMC'' 1 3, ex_row ''2317'' ''HonHai'' 1 3]) = [''2317'', ''2330'']"
  by (simp add: stable_argsort_ok reversing_argsort_ok sort_values_desc_def stable_argsort_def
      reversing_argsort_def ex_row_def)

lemma read_inject_fields:
  "glob_files (inject_read_failure e p0) = glob_files e"
  "institutional_data (inject_read_failure e p0) = institutional_data e"
  "read_csv (inject_read_failure e p0) p = (if p = p0 then None else read_csv e p)"
  "volume_mean (inject_read_failure e p0) = volume_mean e"
  "load_stock_with_institutional (inject_read_failure e p0) = load_stock_with_institutional e"
  "df_empty (inject_read_failure e p0) = df_empty e"
  "engine_run (inject_read_failure e p0) = engine_run e"
  by (simp_all add: inject_read_failure_def)

lemma load_inject_fields:
  "glob_files (inject_load_failure e t0) = glob_files e"
  "institutional_data (inject_load_failure e t0) = institutional_data e"
  "read_csv (inject_load_failure e t0) = read_csv e"
  "volume_mean (inject_load_failure e t0) = volume_mean e"
  "load_stock_with_institutional (inject_load_failure e t0) t
     = (if t = t0 then None else load_stock_with_institutional e t)"
  "df_empty (inject_load_failure e t0) = df_empty e"
  "engine_run (inject_load_failure e t0) = engine_run e"
  by (simp_all add: inject_load_failure_def)

lemma file_rows_read_inject:
  "file_rows (inject_read_failure e p0) minv p item =
     (if p = p0 then [] else file_rows e minv p item)"
  by (simp add: file_rows_def run_df_of_def select_run_df_def merged_series_def engine_rows_def
      read_inject_fields split: option.splits)

lemma select_run_df_price_only:
  "\<not> is_institutional n \<Longrightarrow> select_run_df e n df dwi = Some df"
  by (simp add: select_run_df_def)

lemma select_run_df_institutional_None:
  "is_institutional n \<Longrightarrow> select_run_df e n df None = None"
  by (simp add: select_run_df_def)

lemma run_df_of_load_inject:
  "run_df_of (inject_load_failure e t0) minv p n =
     (if ticker_of p = t0 \<and> is_institutional n then None else run_df_of e minv p n)"
proof (cases "is_institutional n")
  case False
  then show ?thesis
    by (simp add: run_df_of_def select_run_df_price_only load_inject_fields split: option.splits)
next
  case True
  show ?thesis
  proof (cases "ticker_of p = t0")
    case True
    then have "merged_series (inject_load_failure e t0) (ticker_of p) = None"
      by (simp add: merged_series_def load_inject_fields)
    with True \<open>is_institutional n\<close> show ?thesis
      by (simp add: run_df_of_def select_run_df_institutional_None load_inject_fields
          split: option.splits)
  next
    case False
    then have "merged_series (inject_load_failure e t0) (ticker_of p) = merged_series e (ticker_of p)"
      by (simp add: merged_series_def load_inject_fields)
    with False show ?thesis
      by (simp add: run_df_of_def select_run_df_def load_inject_fields split: option.splits)
  qed
qed

lemma file_rows_load_inject:
  "file_rows (inject_load_failure e t0) minv p item =
     (if ticker_of p = t0 \<and> is_institutional (fst item) then [] else file_rows e minv p item)"
  by (simp add: file_rows_def run_df_of_load_inject engine_rows_def load_inject_fields
      split: option.splits)

lemma accepted_rows_read_inject:
  "rows_of (accepted (inject_read_failure e p0) minv) n =
     concat (map (\<lambda>p. concat (map (\<lambda>item. if fst item = n \<and> p \<noteq> p0
                                         then file_rows e minv p item else [])
                              (get_all_strategies True (institutional_data e)))) (glob_files e))"
proof -
  have "(\<lambda>item. if fst item = n then file_rows (inject_read_failure e p0) minv p item else []) =
        (\<lambda>item. if fst item = n \<and> p \<noteq> p0 then file_rows e minv p item else [])"
    for p
    by (rule ext) (simp add: file_rows_read_inject)
  then show ?thesis
    by (simp only: accepted_rows read_inject_fields)
qed

lemma accepted_rows_load_inject:
  "rows_of (accepted (inject_load_failure e t0) minv) n =
     concat (map (\<lambda>p. concat (map (\<lambda>item. if fst item = n
                                            \<and> \<not> (ticker_of p = t0 \<and> is_institutional (fst item))
                                         then file_rows e minv p item else [])
                              (get_all_strategies True (institutional_data e)))) (glob_files e))"
proof -
  have "(\<lambda>item. if fst item = n then file_rows (inject_load_failure e t0) minv p item else []) =
        (\<lambda>item. if fst item = n \<and> \<not> (ticker_of p = t0 \<and> is_institutional (fst item))
                 then file_rows e minv p item else [])"
    for p
    by (rule ext) (simp add: file_rows_load_inject)
  then show ?thesis
    by (simp only: accepted_rows load_inject_fields)
qed

lemma ex_nan_accepted: "accepted ex_nan_env 500 = accepted ex_env 500"
proof -
  have "accepted ex_nan_env 500 =
    [(''MA5x20'', [ex_row ''2330'' ''TSMC'' 2 5, ex_row ''2317'' ''HonHai'' (3 / 2) 3]),
     (''MA5x60'', []),
     (''RSI'', [ex_row ''2330'' ''TSMC'' 1 4]),
     (''MACD'', [ex_row ''2317'' ''HonHai'' 1 3]),
     (name_bollinger, []), (name_momentum, []), (name_volume, []), (name_turtle, []),
     (name_foreign, [ex_row ''2330'' ''TSMC'' (1 / 2) 3]),
     (name_trust, [])]"
    by (simp add: ex_nan_env_def scan_eval ex_row_def)
  then show ?thesis by (simp only: ex_accepted)
qed

lemma ex_nan_fields:
  "map ticker_of (glob_files ex_nan_env) = [''2330'', ''2317'', ''9999'']"
  "read_csv ex_nan_env ''dayK/2317_HonHai.csv'' = Some 2"
  "volume_mean ex_nan_env 2 = Some NaN"
  by (simp_all add: ex_nan_env_def ex_env_def ticker_of_def basename_def)

subsection \<open>Properties of the ranking aggregator\<close>

text \<open>
  Claim C10. \<open>compute_overall_ranking\<close> returns a ranking on every leaderboard mapping: it
  never raises \<open>ZeroDivisionError\<close>. At scoring time every accumulator holds at least one
  strategy, its \<open>sharpe_list\<close> and \<open>return_list\<close> are as long as its list of strategies, and
  its two means are defined.
\<close>

theorem compute_overall_ranking_total:
  "(\<exists>rk. compute_overall_ranking argsort results top_n = Inr rk)
   \<and> (\<forall>it \<in> set (collect_stats results).
        1 \<le> length (strategies (snd it))
        \<and> length (sharpe_list (snd it)) = length (strategies (snd it))
        \<and> length (return_list (snd it)) = length (strategies (snd it))
        \<and> score_entry it \<noteq> Inl ZeroDivisionError)"
proof (intro conjI ballI)
  show "\<exists>rk. compute_overall_ranking argsort results top_n = Inr rk"
    by (simp add: compute_overall_ranking_eq)
next
  fix it assume "it \<in> set (collect_stats results)"
  then have m: "(fst it, snd it) \<in> set (collect_stats results)" by simp
  note f = collect_stats_member [OF m]
  from f(1,2) show "1 \<le> length (strategies (snd it))"
    by (cases "appearances_of results (fst it)") simp_all
  from f(2,3) show "length (sharpe_list (snd it)) = length (strategies (snd it))" by simp
  from f(2,4) show "length (return_list (snd it)) = length (strategies (snd it))" by simp
  from f(1,2) have "strategies (snd it) \<noteq> []" by simp
  then show "score_entry it \<noteq> Inl ZeroDivisionError"
    by (cases it) (simp add: score_entry_def Let_def)
qed

text \<open>
  The accumulator of 2317 in the example: one strategy, one Sharpe ratio.
\<close>

theorem compute_overall_ranking_total_witness:
  "collect_stats ex_results ! 1 \<in> set (collect_stats ex_results)
   \<and> compute_overall_ranking stable_argsort ex_results 30 \<noteq> Inl ZeroDivisionError
   \<and> length (strategies (snd (collect_stats ex_results ! 1))) = 1
   \<and> length (sharpe_list (snd (collect_stats ex_results ! 1))) = 1
   \<and> score_entry (collect_stats ex_results ! 1) \<noteq> Inl ZeroDivisionError"
proof -
  have m: "collect_stats ex_results ! 1 \<in> set (collect_stats ex_results)"
    by (simp add: ex_collect)
  from compute_overall_ranking_total [of stable_argsort ex_results 30]
  have a: "\<exists>rk. compute_overall_ranking stable_argsort ex_results 30 = Inr rk"
    and b: "\<forall>it \<in> set (collect_stats ex_results).
        1 \<le> length (strategies (snd it))
        \<and> length (sharpe_list (snd it)) = length (strategies (snd it))
        \<and> length (return_list (snd it)) = length (strategies (snd it))
        \<and> score_entry it \<noteq> Inl ZeroDivisionError"
    by blast+
  from a have "compute_overall_ranking stable_argsort ex_results 30 \<noteq> Inl ZeroDivisionError"
    by auto
  moreover have "length (strategies (snd (collect_stats ex_results ! 1))) = 1"
    by (simp add: ex_collect)
  ultimately show ?thesis using m b by auto
qed

text \<open>
  Claim C8. For every entry of the composite ranking, \<open>score\<close> is \<open>strategy_count\<close> times
  \<open>avg_sharpe\<close>, where \<open>strategy_count\<close> is the number of appearances of the ticker in the
  leaderboards and \<open>avg_sharpe\<close> is the arithmetic mean of the Sharpe ratios of these
  appearances.
\<close>

theorem score_formula:
  assumes "argsort_ok argsort"
    and "compute_overall_ranking argsort results top_n = Inr rk"
    and "en \<in> set rk"
  shows "score en = real (strategy_count en) * avg_sharpe en
       \<and> strategy_count en = length (appearances_of results (e_ticker en))
       \<and> avg_sharpe en =
           sum_list (map (\<lambda>p. sharpe_ratio (snd p)) (appearances_of results (e_ticker en)))
             / real (length (appearances_of results (e_ticker en)))"
proof -
  from ranking_subset [OF assms(1,2)] assms(3)
  obtain it where it: "it \<in> set (collect_stats results)" and en: "en = projr (score_entry it)"
    by auto
  obtain t s where ts: "it = (t, s)" by (cases it)
  note f = collect_stats_member [OF it [unfolded ts]]
  from f(1,2) have ne: "strategies s \<noteq> []" by simp
  note g = score_entry_fields [OF ne, of t]
  show ?thesis
    unfolding en ts g using f(2,3) by simp
qed

text \<open>
  The entry of 2330 in the example: two appearances, mean Sharpe ratio 3/2, score 3.
\<close>

theorem score_formula_witness:
  "argsort_ok stable_argsort
   \<and> compute_overall_ranking stable_argsort ex_results 30
       = Inr [projr (score_entry (collect_stats ex_results ! 0)),
              projr (score_entry (collect_stats ex_results ! 1))]
   \<and> score (projr (score_entry (collect_stats ex_results ! 0))) = 3
   \<and> strategy_count (projr (score_entry (collect_stats ex_results ! 0))) = 2
   \<and> avg_sharpe (projr (score_entry (collect_stats ex_results ! 0))) = 3 / 2
   \<and> length (appearances_of ex_results ''2330'') = 2"
proof -
  let ?en = "projr (score_entry (collect_stats ex_results ! 0))"
  have c: "compute_overall_ranking stable_argsort ex_results 30
       = Inr [?en, projr (score_entry (collect_stats ex_results ! 1))]"
    by (simp add: ex_collect compute_overall_ranking_eq score_entry_def sort_values_desc_def
          stable_argsort_def df_head_def Let_def)
  have t: "e_ticker ?en = ''2330''"
    by (simp add: ex_collect score_entry_def Let_def)
  have "score ?en = real (strategy_count ?en) * avg_sharpe ?en
       \<and> strategy_count ?en = length (appearances_of ex_results (e_ticker ?en))
       \<and> avg_sharpe ?en =
           sum_list (map (\<lambda>p. sharpe_ratio (snd p)) (appearances_of ex_results (e_ticker ?en)))
             / real (length (appearances_of ex_results (e_ticker ?en)))"
    by (rule score_formula [OF stable_argsort_ok c]) simp
  moreover have "strategy_count ?en = 2" "avg_sharpe ?en = 3 / 2"
    by (simp_all add: ex_collect score_entry_def Let_def)
  ultimately show ?thesis using c stable_argsort_ok t by simp
qed

text \<open>
  Claim C1, as amended. The composite ranking has at most one entry per ticker, and every
  entry is for a ticker that is a member of some leaderboard. The score of an entry is the
  composite score of its ticker, the entries are in descending order of score, and the ranking
  is cut to its first \<open>top_n\<close> entries: for \<open>top_n \<ge> 0\<close> it has \<open>min top_n k\<close> entries, where \<open>k\<close> is
  the number of distinct leaderboard tickers. A leaderboard ticker is without an entry only
  when its score is at most the score of every entry and (for \<open>top_n \<ge> 0\<close>) the ranking is
  full; every leaderboard ticker has an entry when \<open>k \<le> top_n\<close>.
\<close>

theorem composite_scope:
  assumes "argsort_ok argsort"
    and "compute_overall_ranking argsort results top_n = Inr rk"
  shows "distinct (map e_ticker rk)
       \<and> set (map e_ticker rk) \<subseteq> lb_tickers results
       \<and> (\<forall>en \<in> set rk. score en = ticker_score results (e_ticker en))
       \<and> sorted_wrt (\<lambda>x y. x \<ge> y) (map score rk)
       \<and> (\<forall>t \<in> lb_tickers results. t \<notin> set (map e_ticker rk) \<longrightarrow>
             (\<forall>en \<in> set rk. ticker_score results t \<le> score en)
             \<and> (0 \<le> top_n \<longrightarrow> length rk = nat top_n))
       \<and> (0 \<le> top_n \<longrightarrow> length rk = min (nat top_n) (card (lb_tickers results)))
       \<and> (int (card (lb_tickers results)) \<le> top_n \<longrightarrow> set (map e_ticker rk) = lb_tickers results)"
proof -
  let ?ss = "collect_stats results"
  let ?rd = "map (\<lambda>it. projr (score_entry it)) ?ss"
  let ?sd = "sort_values_desc argsort score ?rd"
  have rk: "rk = df_head top_n ?sd"
  proof (cases "?ss = []")
    case True
    then have "?sd = []" using mset_sort_values_desc [OF assms(1), of score ?rd] by simp
    with True assms(2) show ?thesis by (simp add: compute_overall_ranking_eq df_head_def)
  next
    case False
    with assms(2) show ?thesis by (simp add: compute_overall_ranking_eq)
  qed
  have m: "mset (map e_ticker ?sd) = mset (map fst ?ss)"
    using mset_sort_values_desc [OF assms(1), of score ?rd] ranking_tickers [of results]
    by (metis mset_map)
  have d: "distinct (map e_ticker ?sd)"
    using m collect_stats_distinct [of results] by (metis mset_eq_imp_distinct_iff)
  have s: "set (map e_ticker ?sd) = lb_tickers results"
    using m collect_stats_keys [of results]
    by (metis set_mset_mset set_map)
  have l: "length ?sd = card (lb_tickers results)"
  proof -
    have "length ?sd = length (map e_ticker ?sd)" by simp
    also have "\<dots> = card (set (map e_ticker ?sd))" using d by (simp only: distinct_card)
    finally show ?thesis using s by simp
  qed
  have sdset: "set ?sd = set ?rd"
    using mset_sort_values_desc [OF assms(1), of score ?rd] by (metis set_mset_mset)
  have sc: "score en = ticker_score results (e_ticker en)" if "en \<in> set ?sd" for en
  proof -
    from that sdset obtain it where it: "it \<in> set ?ss" and en: "en = projr (score_entry it)"
      by auto
    from it have "strategies (snd it) \<noteq> []" by (rule collect_stats_nonempty)
    then have "e_ticker en = fst it"
      unfolding en using score_entry_fields(1) [of "snd it" "fst it"] by simp
    with entry_score [OF it] en show ?thesis by simp
  qed
  have so: "sorted_wrt (\<lambda>x y. x \<ge> y) (map score ?sd)"
    by (rule sorted_sort_values_desc [OF assms(1)])
  have 1: "distinct (map e_ticker rk)" unfolding rk using d by (rule distinct_df_head)
  have 2: "set (map e_ticker rk) \<subseteq> lb_tickers results"
    using set_df_head [of top_n ?sd] s unfolding rk by auto
  have 3: "0 \<le> top_n \<longrightarrow> length rk = min (nat top_n) (card (lb_tickers results))"
    unfolding rk using l by (simp add: length_df_head)
  have 4: "int (card (lb_tickers results)) \<le> top_n \<longrightarrow> set (map e_ticker rk) = lb_tickers results"
    unfolding rk using l s by (simp add: df_head_all)
  have 5: "\<forall>en \<in> set rk. score en = ticker_score results (e_ticker en)"
    using sc set_df_head [of top_n ?sd] unfolding rk by blast
  have 6: "sorted_wrt (\<lambda>x y. x \<ge> y) (map score rk)"
    unfolding rk using so by (rule sorted_df_head)
  have 7: "\<forall>t \<in> lb_tickers results. t \<notin> set (map e_ticker rk) \<longrightarrow>
             (\<forall>en \<in> set rk. ticker_score results t \<le> score en)
             \<and> (0 \<le> top_n \<longrightarrow> length rk = nat top_n)"
  proof (intro ballI impI)
    fix t assume t: "t \<in> lb_tickers results" and nt: "t \<notin> set (map e_ticker rk)"
    from t s have "t \<in> e_ticker ` set ?sd" by simp
    then obtain y where y: "y \<in> set ?sd" and ty: "e_ticker y = t" by blast
    from nt ty have ny: "y \<notin> set (df_head top_n ?sd)" unfolding rk by auto
    have "\<forall>en \<in> set rk. ticker_score results t \<le> score en"
    proof
      fix en assume "en \<in> set rk"
      then have "en \<in> set (df_head top_n ?sd)" by (simp only: rk)
      from sorted_head_le [OF so this y ny] sc [OF y] ty
      show "ticker_score results t \<le> score en" by simp
    qed
    moreover have "0 \<le> top_n \<longrightarrow> length rk = nat top_n"
      unfolding rk using head_full [OF _ y ny] by blast
    ultimately show "(\<forall>en \<in> set rk. ticker_score results t \<le> score en)
             \<and> (0 \<le> top_n \<longrightarrow> length rk = nat top_n)" by blast
  qed
  from 1 2 3 4 5 6 7 show ?thesis by blast
qed

text \<open>
  In the example both leaderboard tickers have an entry for \<open>top_n = 30\<close>. For \<open>top_n = 1\<close> the
  ranking is full with 2330 (score 3), and 2317, which has no entry, has the score 3/2.
\<close>

theorem composite_scope_witness:
  "argsort_ok stable_argsort
   \<and> map e_ticker (projr (compute_overall_ranking stable_argsort ex_results 30)) = [''2330'', ''2317'']
   \<and> lb_tickers ex_results = {''2330'', ''2317''}
   \<and> (0::int) \<le> 30 \<and> int (card (lb_tickers ex_results)) \<le> 30
   \<and> length (projr (compute_overall_ranking stable_argsort ex_results 30))
       = min (nat 30) (card (lb_tickers ex_results))
   \<and> map (\<lambda>en. (e_ticker en, score en))
         (projr (compute_overall_ranking stable_argsort ex_results 1)) = [(''2330'', 3)]
   \<and> ''2317'' \<in> lb_tickers ex_results
   \<and> ticker_score ex_results ''2317'' = 3 / 2
   \<and> ticker_score ex_results ''2317'' \<le> 3
   \<and> (0::int) \<le> 1
   \<and> length (projr (compute_overall_ranking stable_argsort ex_results 1)) = nat 1"
proof -
  obtain rk where c: "compute_overall_ranking stable_argsort ex_results 30 = Inr rk"
    by (simp add: compute_overall_ranking_eq)
  have t: "map e_ticker rk = [''2330'', ''2317'']"
    using c by (auto simp add: ex_collect compute_overall_ranking_eq score_entry_def
          sort_values_desc_def stable_argsort_def df_head_def Let_def)
  have k: "card (lb_tickers ex_results) = 2" by (simp add: ex_lb_tickers)
  from composite_scope [OF stable_argsort_ok c]
  have a: "length rk = min (nat 30) (card (lb_tickers ex_results))" by simp
  obtain rk1 where c1: "compute_overall_ranking stable_argsort ex_results 1 = Inr rk1"
    by (simp add: compute_overall_ranking_eq)
  have t1: "map (\<lambda>en. (e_ticker en, score en)) rk1 = [(''2330'', 3)]"
    using c1 ex_rank_1 by simp
  then obtain en where rk1: "rk1 = [en]" and en: "e_ticker en = ''2330''" "score en = 3"
    by auto
  have m: "''2317'' \<in> lb_tickers ex_results" "''2317'' \<notin> set (map e_ticker rk1)"
    by (simp_all add: ex_lb_tickers rk1 en)
  from composite_scope [OF stable_argsort_ok c1] m
  have "(\<forall>en \<in> set rk1. ticker_score ex_results ''2317'' \<le> score en)
        \<and> ((0::int) \<le> 1 \<longrightarrow> length rk1 = nat 1)"
    by blast
  then have b: "ticker_score ex_results ''2317'' \<le> 3" "length rk1 = nat 1"
    by (simp_all add: rk1 en)
  show ?thesis
    using c t k a c1 t1 b m(1) stable_argsort_ok ex_lb_tickers ex_scores(1) by simp
qed

text \<open>
  Claim C1 as stated fails: with \<open>top_n = 1\<close>, 2317 is the second member of the leaderboard
  of MA5x20 and has no composite entry.
\<close>

theorem composite_scope_counterexample:
  "ticker (rows_of ex_results ''MA5x20'' ! 1) = ''2317''
   \<and> compute_overall_ranking stable_argsort ex_results 1 \<noteq> Inl ZeroDivisionError
   \<and> map e_ticker (projr (compute_overall_ranking stable_argsort ex_results 1)) = [''2330'']"
  by (simp add: ex_results_def ranking_eval rows_of_def)

text \<open>
  Claim C3 fails on the code. The running best starts at 0 and is replaced only by a
  strictly greater Sharpe ratio, so a ticker whose only Sharpe ratio is -1/2 gets
  \<open>best_sharpe = 0\<close> (the maximum is -1/2) and an empty \<open>best_strategy\<close>.
\<close>

theorem best_sharpe_all_negative:
  "compute_overall_ranking stable_argsort ex_negative 30 =
     Inr [\<lparr>e_ticker = ''2330'', e_name = ''TSMC'', score = - 1 / 2, strategy_count = 1,
           avg_sharpe = - 1 / 2, avg_return = 1 / 10, best_strategy = [], best_sharpe = 0,
           e_strategies = ''RSI''\<rparr>]"
  by (simp add: ex_negative_def ranking_eval)

subsection \<open>Properties of the scan\<close>

text \<open>
  Claim C7. For a non-negative \<open>top_n\<close> the scan returns one leaderboard per strategy of the
  battery; each has at most \<open>top_n\<close> members and every member's Sharpe ratio is at least that
  of the next one; a strategy with no accepted result gets the empty leaderboard, and the scan
  returns a value, not an error.
\<close>

theorem leaderboard_bound_order:
  assumes "argsort_ok argsort" and "0 \<le> top_n"
  shows "\<exists>lbs rk. market_scan_all_strategies argsort e top_n min_volume = Inr (lbs, rk)
      \<and> map fst lbs = map fst (get_all_strategies True (institutional_data e))
      \<and> (\<forall>nm lb. (nm, lb) \<in> set lbs \<longrightarrow>
            int (length lb) \<le> top_n
          \<and> (\<forall>i. Suc i < length lb \<longrightarrow> sharpe_ratio (lb ! Suc i) \<le> sharpe_ratio (lb ! i))
          \<and> (rows_of (accepted e min_volume) nm = [] \<longrightarrow> lb = []))"
proof -
  let ?lbs = "to_leaderboards argsort top_n (accepted e min_volume)"
  let ?rk = "projr (compute_overall_ranking argsort ?lbs 30)"
  have 1: "market_scan_all_strategies argsort e top_n min_volume = Inr (?lbs, ?rk)"
    by (rule market_scan_eq)
  have 2: "map fst ?lbs = map fst (get_all_strategies True (institutional_data e))"
    by (simp add: to_leaderboards_keys accepted_keys)
  have 3: "int (length lb) \<le> top_n
          \<and> (\<forall>i. Suc i < length lb \<longrightarrow> sharpe_ratio (lb ! Suc i) \<le> sharpe_ratio (lb ! i))
          \<and> (rows_of (accepted e min_volume) nm = [] \<longrightarrow> lb = [])"
    if m: "(nm, lb) \<in> set ?lbs" for nm lb
  proof -
    note p = leaderboard_props [OF assms(1) m accepted_distinct]
    from p(2) assms(2) have "int (length lb) \<le> top_n" by simp
    moreover have "\<forall>i. Suc i < length lb \<longrightarrow> sharpe_ratio (lb ! Suc i) \<le> sharpe_ratio (lb ! i)"
      using sorted_desc_adjacent [OF p(3)] by blast
    moreover have "rows_of (accepted e min_volume) nm = [] \<longrightarrow> lb = []"
      using p(4) by blast
    ultimately show ?thesis by blast
  qed
  from 1 2 3 show ?thesis by blast
qed

text \<open>
  In the example universe with \<open>top_n = 1\<close>: MA5x20 accepted two results and keeps one,
  MA5x60 accepted none and has the empty leaderboard.
\<close>

theorem leaderboard_bound_order_witness:
  "argsort_ok stable_argsort \<and> (0::int) \<le> 1
   \<and> rows_of (accepted ex_env 500) ''MA5x20''
       = [ex_row ''2330'' ''TSMC'' 2 5, ex_row ''2317'' ''HonHai'' (3 / 2) 3]
   \<and> (''MA5x20'', [ex_row ''2330'' ''TSMC'' 2 5])
       \<in> set (fst (projr (market_scan_all_strategies stable_argsort ex_env 1 500)))
   \<and> int (length [ex_row ''2330'' ''TSMC'' 2 5]) \<le> 1
   \<and> rows_of (accepted ex_env 500) ''MA5x60'' = []
   \<and> (''MA5x60'', []) \<in> set (fst (projr (market_scan_all_strategies stable_argsort ex_env 1 500)))"
proof -
  from leaderboard_bound_order [OF stable_argsort_ok, of 1 ex_env 500]
  obtain lbs rk where s: "market_scan_all_strategies stable_argsort ex_env 1 500 = Inr (lbs, rk)"
    and b: "\<forall>nm lb. (nm, lb) \<in> set lbs \<longrightarrow> int (length lb) \<le> 1"
    by auto
  from s have lbs: "lbs = to_leaderboards stable_argsort 1 (accepted ex_env 500)"
    by (simp add: ex_scan_1)
  have m: "(''MA5x20'', [ex_row ''2330'' ''TSMC'' 2 5]) \<in> set lbs"
    "(''MA5x60'', []) \<in> set lbs"
    unfolding lbs ex_leaderboards_1 by simp_all
  from b m(1) have "int (length [ex_row ''2330'' ''TSMC'' 2 5]) \<le> 1" by blast
  then show ?thesis
    using m s stable_argsort_ok by (simp add: ex_rows)
qed

text \<open>
  Claim C6, as amended. Every row of every leaderboard reports at least three trades and
  carries the ticker and name of a scanned file that was read and whose mean volume is not
  below \<open>min_volume\<close>: the mean is at least \<open>min_volume\<close>, or it is NaN (the test
  \<open>mean < min_volume\<close> is then false and the instrument is not excluded). The gate is one check
  per instrument: the engine is only ever invoked for files that pass it, and a file that does
  not pass leaves the whole scan state (the results of every strategy and the log of engine
  calls) as it was.
\<close>

theorem leaderboard_membership:
  assumes "argsort_ok argsort"
    and "market_scan_all_strategies argsort e top_n min_volume = Inr (lbs, rk)"
    and "(nm, lb) \<in> set lbs" and "r \<in> set lb"
  shows "3 \<le> trade_count r
       \<and> (\<exists>p \<in> set (glob_files e). \<exists>df m.
             read_csv e p = Some df \<and> volume_mean e df = Some m
             \<and> (m = NaN \<or> (\<exists>v. m = Num v \<and> min_volume \<le> v))
             \<and> ticker r = ticker_of p \<and> name r = name_of p)
       \<and> (\<forall>c \<in> set (engine_calls e min_volume). passes_gate e min_volume (fst c))
       \<and> (\<forall>p strats st. \<not> passes_gate e min_volume p \<longrightarrow> scan_file e min_volume strats st p = st)"
proof -
  from assms(2) have lbs: "lbs = to_leaderboards argsort top_n (accepted e min_volume)"
    by (simp add: market_scan_eq)
  note p = leaderboard_props(1) [OF assms(1) assms(3) [unfolded lbs] accepted_distinct]
  with assms(4) have "r \<in> set (rows_of (accepted e min_volume) nm)" by blast
  then have "row_ok e min_volume r" by (rule accepted_row_ok)
  then have 1: "3 \<le> trade_count r"
    and "\<exists>p \<in> set (glob_files e).
             passes_gate e min_volume p \<and> ticker r = ticker_of p \<and> name r = name_of p"
    by (simp_all add: row_ok_def)
  then have 2: "\<exists>p \<in> set (glob_files e). \<exists>df m.
             read_csv e p = Some df \<and> volume_mean e df = Some m
             \<and> (m = NaN \<or> (\<exists>v. m = Num v \<and> min_volume \<le> v))
             \<and> ticker r = ticker_of p \<and> name r = name_of p"
    unfolding passes_gate_iff by blast
  have 3: "\<forall>c \<in> set (engine_calls e min_volume). passes_gate e min_volume (fst c)"
  proof
    fix c assume "c \<in> set (engine_calls e min_volume)"
    then obtain p item where "c \<in> set (file_calls e min_volume p item)"
      by (auto simp only: engine_calls_eq set_concat set_map)
    from file_calls_ok [OF this] show "passes_gate e min_volume (fst c)" by simp
  qed
  have 4: "\<forall>p strats st. \<not> passes_gate e min_volume p \<longrightarrow> scan_file e min_volume strats st p = st"
    by (simp add: scan_file_below_gate)
  from 1 2 3 4 show ?thesis by blast
qed

text \<open>
  In the example universe 2317 is a member of the MA5x20 leaderboard and its file has mean
  volume 1000; the file of 9999 does not pass the gate, and scanning it changes nothing.
\<close>

theorem leaderboard_membership_witness:
  "argsort_ok stable_argsort
   \<and> (''MA5x20'', [ex_row ''2330'' ''TSMC'' 2 5, ex_row ''2317'' ''HonHai'' (3 / 2) 3])
       \<in> set (fst (projr (market_scan_all_strategies stable_argsort ex_env 30 500)))
   \<and> 3 \<le> trade_count (ex_row ''2317'' ''HonHai'' (3 / 2) 3)
   \<and> read_csv ex_env ''dayK/2317_HonHai.csv'' = Some 2
   \<and> volume_mean ex_env 2 = Some (Num 1000)
   \<and> passes_gate ex_env 500 ''dayK/2317_HonHai.csv''
   \<and> ticker (ex_row ''2317'' ''HonHai'' (3 / 2) 3) = ticker_of ''dayK/2317_HonHai.csv''
   \<and> (''dayK/2317_HonHai.csv'', ''RSI'', 2) \<in> set (engine_calls ex_env 500)
   \<and> \<not> passes_gate ex_env 500 ''dayK/9999_Thin.csv''
   \<and> scan_file ex_env 500 (get_all_strategies True True) ([], []) ''dayK/9999_Thin.csv'' = ([], [])"
proof -
  let ?lbs = "to_leaderboards stable_argsort 30 (accepted ex_env 500)"
  let ?rk = "projr (compute_overall_ranking stable_argsort ?lbs 30)"
  have s: "market_scan_all_strategies stable_argsort ex_env 30 500 = Inr (?lbs, ?rk)"
    by (rule market_scan_eq)
  have m: "(''MA5x20'', [ex_row ''2330'' ''TSMC'' 2 5, ex_row ''2317'' ''HonHai'' (3 / 2) 3]) \<in> set ?lbs"
    unfolding ex_leaderboards_30 by simp
  have r: "ex_row ''2317'' ''HonHai'' (3 / 2) 3
             \<in> set [ex_row ''2330'' ''TSMC'' 2 5, ex_row ''2317'' ''HonHai'' (3 / 2) 3]"
    by simp
  note t = leaderboard_membership [OF stable_argsort_ok s m r]
  from t have 1: "3 \<le> trade_count (ex_row ''2317'' ''HonHai'' (3 / 2) 3)" by blast
  from t ex_gate(2)
  have 2: "scan_file ex_env 500 (get_all_strategies True True) ([], []) ''dayK/9999_Thin.csv'' = ([], [])"
    by blast
  have 3: "(''dayK/2317_HonHai.csv'', ''RSI'', 2) \<in> set (engine_calls ex_env 500)"
    unfolding ex_calls by simp
  have 4: "ticker (ex_row ''2317'' ''HonHai'' (3 / 2) 3) = ticker_of ''dayK/2317_HonHai.csv''"
    by (simp add: ex_gate ex_row_def)
  have 5: "read_csv ex_env ''dayK/2317_HonHai.csv'' = Some 2" "volume_mean ex_env 2 = Some (Num 1000)"
    by (simp_all add: ex_env_def)
  from 1 2 3 4 5 m s ex_gate(1,2) stable_argsort_ok show ?thesis by simp
qed

text \<open>
  Claim C6 as stated fails. In the universe where the only file of ticker 2317 has a NaN mean
  volume, the test \<open>mean < 500\<close> is false, the instrument is scanned, and its row is the
  second member of the MA5x20 leaderboard: a member whose instrument has no mean volume at
  least \<open>min_volume\<close>.
\<close>

theorem leaderboard_membership_counterexample:
  "map ticker_of (glob_files ex_nan_env) = [''2330'', ''2317'', ''9999'']
   \<and> read_csv ex_nan_env ''dayK/2317_HonHai.csv'' = Some 2
   \<and> volume_mean ex_nan_env 2 = Some NaN
   \<and> rows_of (fst (projr (market_scan_all_strategies stable_argsort ex_nan_env 30 500))) ''MA5x20''
       = [ex_row ''2330'' ''TSMC'' 2 5, ex_row ''2317'' ''HonHai'' (3 / 2) 3]
   \<and> ticker (ex_row ''2317'' ''HonHai'' (3 / 2) 3) = ''2317''"
proof -
  have "rows_of (to_leaderboards stable_argsort 30 (accepted ex_nan_env 500)) ''MA5x20''
       = [ex_row ''2330'' ''TSMC'' 2 5, ex_row ''2317'' ''HonHai'' (3 / 2) 3]"
    unfolding ex_nan_accepted ex_leaderboards_30 by (simp add: rows_of_def)
  then show ?thesis
    by (simp add: market_scan_eq ex_nan_fields ex_row_def)
qed

text \<open>
  Claim C9. For an instrument that is read and passes the gate but whose merged institutional
  series is unavailable (global data not loaded, loader raised or returned nothing, or empty
  series), the engine is invoked exactly once per price-only strategy, on the raw price series,
  and never for an institutional-flow strategy (one whose name contains one of the two markers;
  in the battery these are the two \<open>InstitutionalFollowStrategy\<close> entries, lemma
  \<open>battery_kinds\<close>). The rows of every price-only strategy grow by what the engine returns on the
  raw series; the rows of the institutional-flow strategies do not change.
\<close>

theorem institutional_unavailable:
  assumes "read_csv e p = Some df" and "passes_gate e min_volume p"
    and "inst_unavailable e (ticker_of p)" and "keys_ok strats (fst st)"
  shows "snd (scan_file e min_volume strats st p) =
           snd st @ map (\<lambda>item. (p, fst item, df))
                        (filter (\<lambda>item. \<not> is_institutional (fst item)) strats)
       \<and> (\<forall>n. rows_of (fst (scan_file e min_volume strats st p)) n =
                rows_of (fst st) n
                  @ concat (map (\<lambda>item. if fst item = n \<and> \<not> is_institutional n
                                        then engine_rows e (ticker_of p) (name_of p) df (snd item)
                                        else []) strats))"
proof (intro conjI allI)
  note r = run_df_of_unavailable [OF assms(1-3)]
  have fc: "file_calls e min_volume p =
              (\<lambda>item. if \<not> is_institutional (fst item) then [(p, fst item, df)] else [])"
    by (rule ext) (simp add: file_calls_def r)
  from scan_file_char [OF assms(4), of e min_volume p]
  have "snd (scan_file e min_volume strats st p) =
          snd st @ concat (map (file_calls e min_volume p) strats)"
    by blast
  then show "snd (scan_file e min_volume strats st p) =
           snd st @ map (\<lambda>item. (p, fst item, df))
                        (filter (\<lambda>item. \<not> is_institutional (fst item)) strats)"
    unfolding fc concat_map_if .
next
  fix n
  note r = run_df_of_unavailable [OF assms(1-3)]
  have fr: "(\<lambda>item. if fst item = n then file_rows e min_volume p item else []) =
            (\<lambda>item. if fst item = n \<and> \<not> is_institutional n
                     then engine_rows e (ticker_of p) (name_of p) df (snd item) else [])"
    by (rule ext) (simp add: file_rows_def r)
  from scan_file_char [OF assms(4), of e min_volume p n]
  have "rows_of (fst (scan_file e min_volume strats st p)) n =
           rows_of (fst st) n
             @ concat (map (\<lambda>item. if fst item = n then file_rows e min_volume p item else []) strats)"
    by blast
  then show "rows_of (fst (scan_file e min_volume strats st p)) n =
                rows_of (fst st) n
                  @ concat (map (\<lambda>item. if fst item = n \<and> \<not> is_institutional n
                                        then engine_rows e (ticker_of p) (name_of p) df (snd item)
                                        else []) strats)"
    unfolding fr .
qed

text \<open>
  In the example universe the loader raises for 2317: its scan invokes the engine for the eight
  price-only strategies on the raw series 2, and adds nothing under the foreign-flow strategy.
\<close>

theorem institutional_unavailable_witness:
  "read_csv ex_env ''dayK/2317_HonHai.csv'' = Some 2
   \<and> passes_gate ex_env 500 ''dayK/2317_HonHai.csv''
   \<and> inst_unavailable ex_env (ticker_of ''dayK/2317_HonHai.csv'')
   \<and> keys_ok (get_all_strategies True True) (init_results (get_all_strategies True True))
   \<and> snd (scan_file ex_env 500 (get_all_strategies True True)
             (init_results (get_all_strategies True True), []) ''dayK/2317_HonHai.csv'')
       = [(''dayK/2317_HonHai.csv'', ''MA5x20'', 2), (''dayK/2317_HonHai.csv'', ''MA5x60'', 2),
          (''dayK/2317_HonHai.csv'', ''RSI'', 2), (''dayK/2317_HonHai.csv'', ''MACD'', 2),
          (''dayK/2317_HonHai.csv'', name_bollinger, 2), (''dayK/2317_HonHai.csv'', name_momentum, 2),
          (''dayK/2317_HonHai.csv'', name_volume, 2), (''dayK/2317_HonHai.csv'', name_turtle, 2)]
   \<and> rows_of (fst (scan_file ex_env 500 (get_all_strategies True True)
             (init_results (get_all_strategies True True), []) ''dayK/2317_HonHai.csv'')) name_foreign
       = []"
proof -
  have k: "keys_ok (get_all_strategies True True)
             (fst (init_results (get_all_strategies True True), []::(string \<times> string \<times> nat) list))"
    by (simp add: init_results_props(1))
  note t = institutional_unavailable [OF ex_unavailable(1) ex_gate(1) ex_unavailable(2) k]
  from t have c: "snd (scan_file ex_env 500 (get_all_strategies True True)
             (init_results (get_all_strategies True True), []) ''dayK/2317_HonHai.csv'')
       = map (\<lambda>item. (''dayK/2317_HonHai.csv'', fst item, 2))
             (filter (\<lambda>item. \<not> is_institutional (fst item)) (get_all_strategies True True))"
    by simp
  have i: "is_institutional name_foreign"
    by (simp add: is_institutional_def name_foreign_def lian_mai_def)
  from t have "rows_of (fst (scan_file ex_env 500 (get_all_strategies True True)
             (init_results (get_all_strategies True True), []) ''dayK/2317_HonHai.csv'')) name_foreign
       = rows_of (init_results (get_all_strategies True True)) name_foreign
           @ concat (map (\<lambda>item. if fst item = name_foreign \<and> \<not> is_institutional name_foreign
                                 then engine_rows ex_env (ticker_of ''dayK/2317_HonHai.csv'')
                                        (name_of ''dayK/2317_HonHai.csv'') 2 (snd item)
                                 else []) (get_all_strategies True True))"
    by simp
  then have r: "rows_of (fst (scan_file ex_env 500 (get_all_strategies True True)
             (init_results (get_all_strategies True True), []) ''dayK/2317_HonHai.csv'')) name_foreign
       = []"
    by (simp add: i init_results_props(2) concat_map_Nil)
  show ?thesis
    using ex_unavailable ex_gate(1) init_results_props(1) [of "get_all_strategies True True"] r
    unfolding c ex_price_only by simp
qed

text \<open>
  Claim C5. The scan returns in every environment: no failure of a collaborator reaches the
  caller. The accepted results of a strategy are the concatenation, over the whole universe in
  scan order, of what each (instrument, strategy) pair contributes on its own
  (\<open>file_rows\<close>, empty when the pair fails). Making one evaluation fail removes the
  contribution of the failing pairs and of no other: an engine exception on a series and a
  strategy (\<open>inject_failure\<close>) removes the pairs evaluated on that series with that strategy; an
  unreadable price file (\<open>inject_read_failure\<close>) removes the pairs of that file; a failing
  institutional loader (\<open>inject_load_failure\<close>) removes the institutional-flow pairs of that
  ticker. In particular a strategy none of whose pairs is struck keeps its accepted results
  unchanged.
\<close>

theorem failure_isolation:
  "market_scan_all_strategies argsort e' top_n min_volume \<noteq> Inl ZeroDivisionError
   \<and> rows_of (accepted e min_volume) n =
       concat (map (\<lambda>p. concat (map (\<lambda>item. if fst item = n then file_rows e min_volume p item else [])
                                (get_all_strategies True (institutional_data e)))) (glob_files e))
   \<and> rows_of (accepted (inject_failure e d0 s0) min_volume) n =
       concat (map (\<lambda>p. concat (map (\<lambda>item. if fst item = n \<and> \<not> hit e min_volume d0 s0 p item
                                           then file_rows e min_volume p item else [])
                                (get_all_strategies True (institutional_data e)))) (glob_files e))
   \<and> rows_of (accepted (inject_read_failure e p0) min_volume) n =
       concat (map (\<lambda>p. concat (map (\<lambda>item. if fst item = n \<and> p \<noteq> p0
                                           then file_rows e min_volume p item else [])
                                (get_all_strategies True (institutional_data e)))) (glob_files e))
   \<and> rows_of (accepted (inject_load_failure e t0) min_volume) n =
       concat (map (\<lambda>p. concat (map (\<lambda>item. if fst item = n
                                              \<and> \<not> (ticker_of p = t0 \<and> is_institutional (fst item))
                                           then file_rows e min_volume p item else [])
                                (get_all_strategies True (institutional_data e)))) (glob_files e))
   \<and> ((\<forall>p \<in> set (glob_files e). \<forall>item \<in> set (get_all_strategies True (institutional_data e)).
          fst item = n \<longrightarrow> \<not> hit e min_volume d0 s0 p item)
       \<longrightarrow> rows_of (accepted (inject_failure e d0 s0) min_volume) n
             = rows_of (accepted e min_volume) n)"
proof (intro conjI impI)
  show "market_scan_all_strategies argsort e' top_n min_volume \<noteq> Inl ZeroDivisionError"
    by (simp add: market_scan_eq)
  show "rows_of (accepted (inject_read_failure e p0) min_volume) n =
       concat (map (\<lambda>p. concat (map (\<lambda>item. if fst item = n \<and> p \<noteq> p0
                                           then file_rows e min_volume p item else [])
                                (get_all_strategies True (institutional_data e)))) (glob_files e))"
    by (rule accepted_rows_read_inject)
  show "rows_of (accepted (inject_load_failure e t0) min_volume) n =
       concat (map (\<lambda>p. concat (map (\<lambda>item. if fst item = n
                                              \<and> \<not> (ticker_of p = t0 \<and> is_institutional (fst item))
                                           then file_rows e min_volume p item else [])
                                (get_all_strategies True (institutional_data e)))) (glob_files e))"
    by (rule accepted_rows_load_inject)
  show "rows_of (accepted e min_volume) n =
       concat (map (\<lambda>p. concat (map (\<lambda>item. if fst item = n then file_rows e min_volume p item else [])
                                (get_all_strategies True (institutional_data e)))) (glob_files e))"
    by (rule accepted_rows)
  show "rows_of (accepted (inject_failure e d0 s0) min_volume) n =
       concat (map (\<lambda>p. concat (map (\<lambda>item. if fst item = n \<and> \<not> hit e min_volume d0 s0 p item
                                           then file_rows e min_volume p item else [])
                                (get_all_strategies True (institutional_data e)))) (glob_files e))"
    by (rule accepted_rows_inject)
next
  assume nohit: "\<forall>p \<in> set (glob_files e). \<forall>item \<in> set (get_all_strategies True (institutional_data e)).
          fst item = n \<longrightarrow> \<not> hit e min_volume d0 s0 p item"
  have eq: "concat (map (\<lambda>item. if fst item = n \<and> \<not> hit e min_volume d0 s0 p item
                     then file_rows e min_volume p item else [])
            (get_all_strategies True (institutional_data e)))
        = concat (map (\<lambda>item. if fst item = n then file_rows e min_volume p item else [])
            (get_all_strategies True (institutional_data e)))"
    if "p \<in> set (glob_files e)" for p
  proof -
    have "map (\<lambda>item. if fst item = n \<and> \<not> hit e min_volume d0 s0 p item
                     then file_rows e min_volume p item else [])
            (get_all_strategies True (institutional_data e))
        = map (\<lambda>item. if fst item = n then file_rows e min_volume p item else [])
            (get_all_strategies True (institutional_data e))"
      by (rule map_cong) (use nohit that in auto)
    then show ?thesis by (rule arg_cong)
  qed
  have "map (\<lambda>p. concat (map (\<lambda>item. if fst item = n \<and> \<not> hit e min_volume d0 s0 p item
                                           then file_rows e min_volume p item else [])
                                (get_all_strategies True (institutional_data e)))) (glob_files e)
           = map (\<lambda>p. concat (map (\<lambda>item. if fst item = n then file_rows e min_volume p item else [])
                                (get_all_strategies True (institutional_data e)))) (glob_files e)"
    by (rule map_cong [OF refl]) (rule eq)
  then show "rows_of (accepted (inject_failure e d0 s0) min_volume) n
             = rows_of (accepted e min_volume) n"
    by (subst accepted_rows_inject) (simp only: accepted_rows)
qed

text \<open>
  In the example universe, an engine failure on the series of 2330 under RSI empties the RSI
  results (2330 was its only accepted row) and leaves the results of MA5x20 as they were.
\<close>

theorem failure_isolation_witness:
  "rows_of (accepted (inject_failure ex_env 1 (RSIStrategy 30 70)) 500) ''MA5x20''
     = [ex_row ''2330'' ''TSMC'' 2 5, ex_row ''2317'' ''HonHai'' (3 / 2) 3]
   \<and> rows_of (accepted ex_env 500) ''RSI'' = [ex_row ''2330'' ''TSMC'' 1 4]
   \<and> rows_of (accepted (inject_failure ex_env 1 (RSIStrategy 30 70)) 500) ''RSI'' = []
   \<and> market_scan_all_strategies stable_argsort (inject_failure ex_env 1 (RSIStrategy 30 70)) 30 500
       \<noteq> Inl ZeroDivisionError"
proof -
  from failure_isolation [of stable_argsort "inject_failure ex_env 1 (RSIStrategy 30 70)" 30 500
      ex_env "''MA5x20''" 1 "RSIStrategy 30 70"] ex_nohit
  have "rows_of (accepted (inject_failure ex_env 1 (RSIStrategy 30 70)) 500) ''MA5x20''
          = rows_of (accepted ex_env 500) ''MA5x20''"
    and "market_scan_all_strategies stable_argsort (inject_failure ex_env 1 (RSIStrategy 30 70)) 30 500
       \<noteq> Inl ZeroDivisionError"
    by blast+
  then show ?thesis
    by (simp only: ex_inject_rsi ex_rows simp_thms)
qed

text \<open>
  Claim C2 fails on the code. \<open>market_scan_all_strategies\<close> passes \<open>top_n\<close> to the leaderboards
  but calls \<open>compute_overall_ranking\<close> without it, so the composite ranking is cut at the default
  30. With \<open>top_n = 1\<close> every leaderboard of the example universe has at most one member, and
  the composite ranking has two entries.
\<close>

theorem composite_ranking_ignores_top_n:
  "market_scan_all_strategies stable_argsort ex_env 1 500 \<noteq> Inl ZeroDivisionError
   \<and> map (\<lambda>lb. (fst lb, map ticker (snd lb)))
       (fst (projr (market_scan_all_strategies stable_argsort ex_env 1 500)))
       = [(''MA5x20'', [''2330'']), (''MA5x60'', []), (''RSI'', [''2330'']), (''MACD'', [''2317'']),
          (name_bollinger, []), (name_momentum, []), (name_volume, []), (name_turtle, []),
          (name_foreign, [''2330'']), (name_trust, [])]
   \<and> map (\<lambda>en. (e_ticker en, strategy_count en, score en))
       (snd (projr (market_scan_all_strategies stable_argsort ex_env 1 500)))
       = [(''2330'', 3, 7 / 2), (''2317'', 1, 1)]"
proof -
  have "map (\<lambda>lb. (fst lb, map ticker (snd lb)))
          (to_leaderboards stable_argsort 1 (accepted ex_env 500))
       = [(''MA5x20'', [''2330'']), (''MA5x60'', []), (''RSI'', [''2330'']), (''MACD'', [''2317'']),
          (name_bollinger, []), (name_momentum, []), (name_volume, []), (name_turtle, []),
          (name_foreign, [''2330'']), (name_trust, [])]"
    unfolding ex_leaderboards_1 by (simp add: ex_row_def)
  then show ?thesis
    by (simp add: ex_scan_1 ex_ranking_1)
qed

end
